theory Spec2Isabelle
  imports Main "HOL-Library.Sublist" "HOL-Library.Word" "HOL-Library.Char_ord"
    "HOL-Library.List_Lexorder"
begin

unbundle bit_operations_syntax

section \<open>SigMF archives: the data model\<close>

text \<open>
  A shallow embedding of \<^verbatim>\<open>sigmf/archive.py\<close>: the class \<^verbatim>\<open>SigMFArchive\<close>, whose
  constructor packs recordings into a tar container, and the function \<^verbatim>\<open>extract\<close>.
  Python exceptions are values of the type \<open>error\<close>; the file system, the open file
  objects and the supply of temporary directories are an explicit \<open>world\<close> that every
  operation takes and returns.
\<close>

type_synonym path = string
type_synonym bytes = string
type_synonym mode = "32 word"

definition SIGMF_ARCHIVE_EXT :: string where
  "SIGMF_ARCHIVE_EXT = ''.sigmf''"

definition SIGMF_METADATA_EXT :: string where
  "SIGMF_METADATA_EXT = ''.sigmf-meta''"

definition SIGMF_DATASET_EXT :: string where
  "SIGMF_DATASET_EXT = ''.sigmf-data''"

text \<open>
  The exceptions that leave the two operations. \<open>FileError\<close> is \<^verbatim>\<open>error.SigMFFileError\<close>
  and \<open>ValidationError\<close> is \<^verbatim>\<open>error.SigMFValidationError\<close>, the two the module raises
  itself. The others come from the Python library and are not caught:
  \<open>FormatError\<close> stands for the decoding failure of \<^verbatim>\<open>json.load\<close> behind the UTF-8 reader
  (\<^verbatim>\<open>json.JSONDecodeError\<close>, \<^verbatim>\<open>UnicodeDecodeError\<close>), \<open>OSError\<close> for a failing
  \<^verbatim>\<open>open\<close>, \<^verbatim>\<open>shutil.copy\<close> or \<^verbatim>\<open>extractall\<close>, \<open>ReadError\<close> for \<^verbatim>\<open>tarfile.ReadError\<close>,
  \<open>AttributeError\<close> for reading from the \<^verbatim>\<open>None\<close> that \<^verbatim>\<open>extractfile\<close> returns for a
  member without data, \<open>TypeError\<close> for an operation on \<^verbatim>\<open>None\<close> where a string is needed.
\<close>

datatype error =
  FileError | ValidationError | FormatError | OSError | ReadError | AttributeError | TypeError

text \<open>What \<^verbatim>\<open>json.load\<close> returns; \<open>JNull\<close> is Python's \<^verbatim>\<open>None\<close>.\<close>

datatype json =
  JNull | JBool bool | JNumber int | JString string | JArray "json list"
  | JObject "(string \<times> json) list"

text \<open>
  A recording handle (\<^verbatim>\<open>SigMFFile\<close>, a class outside this module), as far as the
  archiver reads it: the attributes \<^verbatim>\<open>name\<close> and \<^verbatim>\<open>data_file\<close> (either may be \<^verbatim>\<open>None\<close>),
  the metadata document, and the result of its \<^verbatim>\<open>validate()\<close>.
\<close>

record sigmffile =
  name :: "string option"
  metadata :: json
  data_file :: "path option"
  validate :: bool

text \<open>
  The contents of a regular file: bytes that are not a tar stream (\<open>Raw\<close>, the empty
  file included), or a tar stream with its members in order (\<open>Tar\<close>); the flag of \<open>Tar\<close>
  says that the stream ends short of what its last header announces (with no member:
  inside the first header). \<open>Junk\<close> is a file that starts with bytes that are no tar
  header and holds a tar stream written behind them, which no reader finds. A member
  (\<^verbatim>\<open>tarfile.TarInfo\<close>) has a name, a type, permission bits and, for a regular file,
  its data.
\<close>

datatype content = Raw bytes | Tar "tarinfo list" bool | Junk "tarinfo list"
and tarinfo = TarInfo (ti_name: string) (isdir: bool) (ti_mode: mode) (ti_data: content)

datatype node = Dir mode | File mode content

text \<open>A caller-supplied byte sink: an open file object on a named file.\<close>

record fileobj =
  fo_name :: path
  fo_writable :: bool

record world =
  cwd :: path
  umask :: mode
  fs :: "(path \<times> node) list"
  ntemp :: nat
  opened :: "path list"

text \<open>
  \<open>fs\<close> maps absolute paths to nodes (the first entry of a path counts), \<open>ntemp\<close> counts
  the temporary directories handed out, \<open>opened\<close> lists the files that open file
  objects and container handles currently hold.
\<close>

text \<open>What \<^verbatim>\<open>extract\<close> passes to the constructor \<^verbatim>\<open>SigMFFile(metadata=..., data_file=...)\<close>.\<close>

record extracted =
  ex_metadata :: json
  ex_data_file :: path

datatype sigmffiles_arg = Single sigmffile | Iterable "sigmffile list"

section \<open>Strings and paths\<close>

definition endswith :: "string \<Rightarrow> string \<Rightarrow> bool" where
  "endswith s e = suffix e s"

definition startswith :: "string \<Rightarrow> string \<Rightarrow> bool" where
  "startswith s e = prefix e s"

text \<open>\<^verbatim>\<open>os.path.join\<close> of two components (POSIX).\<close>

definition join :: "path \<Rightarrow> path \<Rightarrow> path" where
  "join a b =
     (if startswith b ''/'' then b
      else if a = [] \<or> endswith a ''/'' then a @ b
      else a @ ''/'' @ b)"

text \<open>
  \<^verbatim>\<open>os.path.splitext\<close> (POSIX): the extension starts at the last dot of the last
  component, leading dots of that component not counted.
\<close>

definition after_last :: "char \<Rightarrow> string \<Rightarrow> string" where
  "after_last c s = rev (takeWhile (\<lambda>x. x \<noteq> c) (rev s))"

definition splitext :: "path \<Rightarrow> path \<times> string" where
  "splitext p =
     (let body = dropWhile (\<lambda>x. x = CHR ''.'') (after_last CHR ''/'' p) in
      if CHR ''.'' \<in> set body
      then (let ext = CHR ''.'' # after_last CHR ''.'' body
            in (take (length p - length ext) p, ext))
      else (p, []))"

text \<open>\<^verbatim>\<open>os.path.dirname\<close> (POSIX).\<close>

definition dirname :: "path \<Rightarrow> path" where
  "dirname p =
     (let head = rev (dropWhile (\<lambda>x. x \<noteq> CHR ''/'') (rev p)) in
      if head \<noteq> [] \<and> \<not> list_all (\<lambda>x. x = CHR ''/'') head
      then rev (dropWhile (\<lambda>x. x = CHR ''/'') (rev head))
      else head)"

text \<open>
  \<^verbatim>\<open>os.path.abspath\<close>, without the normalisation of \<^verbatim>\<open>.\<close>, \<^verbatim>\<open>..\<close> and repeated
  separators: the model identifies a file with the string of its absolute path.
\<close>

definition abspath :: "world \<Rightarrow> path \<Rightarrow> path" where
  "abspath w p = (if startswith p ''/'' then p else join (cwd w) p)"

section \<open>The file system\<close>

definition fs_get :: "world \<Rightarrow> path \<Rightarrow> node option" where
  "fs_get w p = map_of (fs w) (abspath w p)"

text \<open>\<open>fs_put\<close> and \<open>write_file\<close> take the absolute path that an open file object holds.\<close>

definition fs_put :: "path \<Rightarrow> node \<Rightarrow> world \<Rightarrow> world" where
  "fs_put q n w = w\<lparr>fs := (q, n) # fs w\<rparr>"

definition is_dir :: "world \<Rightarrow> path \<Rightarrow> bool" where
  "is_dir w p =
     (abspath w p = ''/'' \<or> (case fs_get w p of Some (Dir m) \<Rightarrow> True | _ \<Rightarrow> False))"

text \<open>
  The builtin \<^verbatim>\<open>open(p, "w")\<close> / \<^verbatim>\<open>open(p, "wb")\<close>: creates or truncates the file.
  It fails when the path is empty or names a directory, or when the directory that
  should hold a new file does not exist. Permissions are not modelled.
\<close>

definition open_write :: "path \<Rightarrow> world \<Rightarrow> (error + path) \<times> world" where
  "open_write p w =
     (let q = abspath w p in
      if p = [] then (Inl OSError, w)
      else (case fs_get w p of
              Some (Dir m) \<Rightarrow> (Inl OSError, w)
            | Some (File m c) \<Rightarrow>
                (Inr q, (fs_put q (File m (Raw [])) w)\<lparr>opened := q # opened w\<rparr>)
            | None \<Rightarrow>
                if is_dir w (dirname q)
                then (Inr q,
                      (fs_put q (File (438 AND NOT (umask w)) (Raw [])) w)
                        \<lparr>opened := q # opened w\<rparr>)
                else (Inl OSError, w)))"

definition close_file :: "path \<Rightarrow> world \<Rightarrow> world" where
  "close_file q w = w\<lparr>opened := remove1 q (opened w)\<rparr>"

text \<open>Replacing the contents of an open file (its permission bits stay).\<close>

definition write_file :: "path \<Rightarrow> content \<Rightarrow> world \<Rightarrow> world" where
  "write_file q c w =
     (case map_of (fs w) q of
        Some (File m old) \<Rightarrow> fs_put q (File m c) w
      | _ \<Rightarrow> w)"

text \<open>
  \<^verbatim>\<open>tempfile.mkdtemp()\<close>: a new directory with mode \<^verbatim>\<open>0o700\<close> (448), under a name not
  handed out before.
\<close>

definition tmp_path :: "nat \<Rightarrow> path" where
  "tmp_path n = ''/tmp/tmp'' @ replicate n (CHR ''x'')"

definition mkdtemp :: "world \<Rightarrow> path \<times> world" where
  "mkdtemp w =
     (let d = tmp_path (ntemp w)
      in (d, w\<lparr>fs := (d, Dir 448) # fs w, ntemp := Suc (ntemp w)\<rparr>))"

text \<open>\<^verbatim>\<open>shutil.rmtree(d)\<close>: the directory and everything below it.\<close>

definition rmtree :: "path \<Rightarrow> world \<Rightarrow> world" where
  "rmtree d w =
     w\<lparr>fs := filter (\<lambda>(p, n). p \<noteq> abspath w d \<and> \<not> startswith p (abspath w d @ ''/'')) (fs w)\<rparr>"

fun strip_prefix :: "string \<Rightarrow> string \<Rightarrow> string option" where
  "strip_prefix [] s = Some s"
| "strip_prefix (c # cs) [] = None"
| "strip_prefix (c # cs) (x # xs) = (if c = x then strip_prefix cs xs else None)"

text \<open>\<^verbatim>\<open>sorted(os.listdir(d))\<close>, the order in which \<^verbatim>\<open>TarFile.add\<close> visits a directory.\<close>

definition child_name :: "path \<Rightarrow> path \<Rightarrow> string list" where
  "child_name d p =
     (case strip_prefix (d @ ''/'') p of
        Some f \<Rightarrow> (if f \<noteq> [] \<and> CHR ''/'' \<notin> set f then [f] else [])
      | None \<Rightarrow> [])"

definition listdir :: "world \<Rightarrow> path \<Rightarrow> string list" where
  "listdir w d = sort (remdups (concat (map (\<lambda>(p, n). child_name (abspath w d) p) (fs w))))"

section \<open>Packing: \<^verbatim>\<open>SigMFArchive\<close>\<close>

definition ensure_path_has_correct_extension :: "path option \<Rightarrow> error + path option" where
  "ensure_path_has_correct_extension path =
     (case path of
        None \<Rightarrow> Inr None
      | Some p \<Rightarrow>
          (let has_extension = (CHR ''.'' \<in> set p);
               has_correct_extension = endswith p SIGMF_ARCHIVE_EXT
           in if has_extension \<and> \<not> has_correct_extension then Inl FileError
              else Inr (Some (if has_correct_extension then p else p @ SIGMF_ARCHIVE_EXT))))"

text \<open>Python's \<^verbatim>\<open>not v\<close> for an attribute that is \<^verbatim>\<open>None\<close> or a string.\<close>

definition not_set :: "string option \<Rightarrow> bool" where
  "not_set v = (v = None \<or> v = Some [])"

definition ensure_sigmffile_name_set :: "sigmffile \<Rightarrow> error + unit" where
  "ensure_sigmffile_name_set sf = (if not_set (name sf) then Inl FileError else Inr ())"

definition ensure_sigmffile_data_file_set :: "sigmffile \<Rightarrow> error + unit" where
  "ensure_sigmffile_data_file_set sf =
     (if not_set (data_file sf) then Inl FileError else Inr ())"

definition validate_sigmffile_metadata :: "sigmffile \<Rightarrow> error + unit" where
  "validate_sigmffile_metadata sf =
     (let valid_md = validate sf in if \<not> valid_md then Inl ValidationError else Inr ())"

text \<open>The body of the loop of \<^verbatim>\<open>_check_input\<close>, and the loop.\<close>

definition check_sigmffile :: "sigmffile \<Rightarrow> error + unit" where
  "check_sigmffile sf =
     (case ensure_sigmffile_name_set sf of
        Inl e \<Rightarrow> Inl e
      | Inr u \<Rightarrow>
          (case ensure_sigmffile_data_file_set sf of
             Inl e \<Rightarrow> Inl e
           | Inr u \<Rightarrow> validate_sigmffile_metadata sf))"

fun check_sigmffiles :: "sigmffile list \<Rightarrow> error + unit" where
  "check_sigmffiles [] = Inr ()"
| "check_sigmffiles (sf # sfs) =
     (case check_sigmffile sf of Inl e \<Rightarrow> Inl e | Inr u \<Rightarrow> check_sigmffiles sfs)"

text \<open>\<^verbatim>\<open>_check_input\<close>; its result is the value of \<^verbatim>\<open>self.path\<close> afterwards.\<close>

definition check_input :: "path option \<Rightarrow> sigmffile list \<Rightarrow> error + path option" where
  "check_input path sigmffiles =
     (case ensure_path_has_correct_extension path of
        Inl e \<Rightarrow> Inl e
      | Inr path' \<Rightarrow>
          (case check_sigmffiles sigmffiles of Inl e \<Rightarrow> Inl e | Inr u \<Rightarrow> Inr path'))"

text \<open>
  \<^verbatim>\<open>_get_open_fileobj\<close>: a sink is probed with an empty write, which raises when the
  sink is not writable; otherwise \<^verbatim>\<open>self.path\<close> is opened (\<^verbatim>\<open>open(None, "wb")\<close> is a
  \<^verbatim>\<open>TypeError\<close>). The result is the absolute path of the file the object writes.
  \<^verbatim>\<open>_get_output_fileobj\<close> turns every exception into \<open>FileError\<close>.
\<close>

definition get_open_fileobj ::
  "path option \<Rightarrow> fileobj option \<Rightarrow> world \<Rightarrow> (error + path) \<times> world" where
  "get_open_fileobj path fileobj w =
     (case fileobj of
        Some fo \<Rightarrow>
          (if fo_writable fo then (Inr (abspath w (fo_name fo)), w) else (Inl OSError, w))
      | None \<Rightarrow>
          (case path of None \<Rightarrow> (Inl TypeError, w) | Some p \<Rightarrow> open_write p w))"

definition get_output_fileobj ::
  "path option \<Rightarrow> fileobj option \<Rightarrow> world \<Rightarrow> (error + path) \<times> world" where
  "get_output_fileobj path fileobj w =
     (case get_open_fileobj path fileobj w of
        (Inl e, w1) \<Rightarrow> (Inl FileError, w1)
      | (Inr q, w1) \<Rightarrow> (Inr q, w1))"

text \<open>
  \<^verbatim>\<open>TarFile(mode="a", fileobj=...)\<close> reads the members already in the sink and raises
  \<^verbatim>\<open>ReadError\<close> when the sink does not hold a complete tar stream.
\<close>

definition TarFile_append :: "world \<Rightarrow> path \<Rightarrow> error + tarinfo list" where
  "TarFile_append w q =
     (case map_of (fs w) q of
        Some (File m (Tar ms False)) \<Rightarrow> Inr ms
      | _ \<Rightarrow> Inl ReadError)"

text \<open>
  \<^verbatim>\<open>TarFile(mode="w", fileobj=...)\<close> after the \<^verbatim>\<open>ReadError\<close>. It does not truncate the
  sink: it writes from the position where the failed attempt stopped reading. Over an
  empty sink that is the start. Over a sink of other bytes it is the end of the first
  block (512 bytes) or of the sink, and these bytes stay in front of the new stream.
  Over a tar stream whose data is cut short it is the place of the next header, so the
  members already there stay in front of the new ones (the gap behind the data of the
  last one reads as zero bytes, which the model does not show). The result says whether
  bytes that are no tar header stay in front of the stream, and gives the members a
  reader finds before the ones added now. The sink is read from its start.
\<close>

definition TarFile_write_over :: "world \<Rightarrow> path \<Rightarrow> bool \<times> tarinfo list" where
  "TarFile_write_over w q =
     (case map_of (fs w) q of
        Some (File m (Raw bs)) \<Rightarrow> (bs \<noteq> [], [])
      | Some (File m (Tar ms True)) \<Rightarrow> (ms = [], ms)
      | Some (File m (Junk ms)) \<Rightarrow> (True, [])
      | _ \<Rightarrow> (False, []))"

text \<open>
  The \<^verbatim>\<open>try\<close> / \<^verbatim>\<open>except tarfile.ReadError\<close> of \<^verbatim>\<open>__init__\<close>: mode \<^verbatim>\<open>"a"\<close> when a sink is
  given, mode \<^verbatim>\<open>"w"\<close> otherwise and after a \<^verbatim>\<open>ReadError\<close>.
\<close>

definition TarFile_init :: "fileobj option \<Rightarrow> world \<Rightarrow> path \<Rightarrow> bool \<times> tarinfo list" where
  "TarFile_init fileobj w q =
     (if fileobj \<noteq> None
      then (case TarFile_append w q of
              Inr ms \<Rightarrow> (False, ms)
            | Inl e \<Rightarrow> TarFile_write_over w q)
      else (False, []))"

text \<open>
  The \<^verbatim>\<open>TarFile\<close> object that \<^verbatim>\<open>__init__\<close> writes: the file behind it and whether its
  stream starts behind bytes that are no tar header. \<open>container\<close> is the contents of
  that file when the members \<open>tf\<close> have been written.
\<close>

record tar_writer =
  tw_name :: path
  tw_after_junk :: bool

definition container :: "bool \<Rightarrow> tarinfo list \<Rightarrow> content" where
  "container after_junk tf = (if after_junk then Junk tf else Tar tf False)"

text \<open>The filter that \<^verbatim>\<open>__init__\<close> passes to \<^verbatim>\<open>add\<close>: \<^verbatim>\<open>0o755\<close> is 493, \<^verbatim>\<open>0o644\<close> is 420.\<close>

definition chmod :: "tarinfo \<Rightarrow> tarinfo" where
  "chmod tarinfo =
     (if isdir tarinfo
      then TarInfo (ti_name tarinfo) (isdir tarinfo) 493 (ti_data tarinfo)
      else TarInfo (ti_name tarinfo) (isdir tarinfo) 420 (ti_data tarinfo))"

text \<open>
  \<^verbatim>\<open>TarFile.gettarinfo(name, arcname)\<close>: the member for the file at \<open>name\<close>, stored
  under \<open>arcname\<close> without leading separators; it fails when the file does not exist.
\<close>

definition gettarinfo :: "world \<Rightarrow> path \<Rightarrow> string \<Rightarrow> error + tarinfo" where
  "gettarinfo w nm arcname =
     (case fs_get w nm of
        None \<Rightarrow> Inl OSError
      | Some (Dir m) \<Rightarrow> Inr (TarInfo (dropWhile (\<lambda>x. x = CHR ''/'') arcname) True m (Raw []))
      | Some (File m c) \<Rightarrow> Inr (TarInfo (dropWhile (\<lambda>x. x = CHR ''/'') arcname) False m c))"

text \<open>
  \<^verbatim>\<open>TarFile.add(name, arcname=..., filter=chmod)\<close>: the members it appends, the
  directory first, then its entries in sorted order, the filter applied to each. The
  walk is one level deep: nothing in the packer creates a directory inside a staging
  directory.
\<close>

definition add_children :: "world \<Rightarrow> path \<Rightarrow> string \<Rightarrow> string list \<Rightarrow> tarinfo list" where
  "add_children w nm arcname fs' =
     concat (map (\<lambda>f. case gettarinfo w (join nm f) (join arcname f) of
                        Inl e \<Rightarrow> [] | Inr t \<Rightarrow> [chmod t]) fs')"

definition tar_add :: "world \<Rightarrow> path \<Rightarrow> string \<Rightarrow> error + tarinfo list" where
  "tar_add w nm arcname =
     (case gettarinfo w nm arcname of
        Inl e \<Rightarrow> Inl e
      | Inr t \<Rightarrow>
          Inr (chmod t # (if isdir t then add_children w nm arcname (listdir w nm) else [])))"

definition basename :: "path \<Rightarrow> string" where
  "basename p = after_last CHR ''/'' p"

text \<open>
  \<^verbatim>\<open>shutil.copy(src, dst)\<close>: the source must be a regular file; a destination that is
  a directory receives the file under the source's base name; contents and
  permission bits are copied.
\<close>

definition copy :: "path \<Rightarrow> path \<Rightarrow> world \<Rightarrow> (error + unit) \<times> world" where
  "copy src dst w =
     (case fs_get w src of
        Some (File m c) \<Rightarrow>
          (let dst' = (if is_dir w dst then join dst (basename src) else dst) in
           if abspath w src = abspath w dst' then (Inl OSError, w)
           else (case open_write dst' w of
                   (Inl e, w1) \<Rightarrow> (Inl e, w1)
                 | (Inr q, w1) \<Rightarrow> (Inr (), close_file q (fs_put q (File m c) w1))))
      | _ \<Rightarrow> (Inl OSError, w))"

text \<open>
  The body of the loop of \<^verbatim>\<open>__init__\<close> for one recording: stage the metadata and the
  dataset in a new temporary directory, add the directory to the container, remove
  it. \<open>out\<close> is the container being written, \<open>tf\<close> the members in it so far; every
  \<^verbatim>\<open>add\<close> writes through to \<open>out\<close>. An exception leaves the loop at once, so what
  follows the raising statement is not executed.
\<close>

definition archive_one ::
  "(json \<Rightarrow> bytes) \<Rightarrow> tar_writer \<Rightarrow> sigmffile \<Rightarrow> tarinfo list \<Rightarrow> world
     \<Rightarrow> (error + tarinfo list) \<times> world" where
  "archive_one dump out sigmffile tf w =
     (case mkdtemp w of
        (tmpdir, w1) \<Rightarrow>
          (case name sigmffile of
             None \<Rightarrow> (Inl TypeError, w1)
           | Some nm \<Rightarrow>
               (let sigmf_md_path = join tmpdir (nm @ SIGMF_METADATA_EXT);
                    sigmf_data_path = join tmpdir (nm @ SIGMF_DATASET_EXT)
                in case open_write sigmf_md_path w1 of
                     (Inl e, w2) \<Rightarrow> (Inl e, w2)
                   | (Inr mdfile, w2) \<Rightarrow>
                       (let w3 = close_file mdfile
                                   (write_file mdfile (Raw (dump (metadata sigmffile))) w2)
                        in case data_file sigmffile of
                             None \<Rightarrow> (Inl TypeError, w3)
                           | Some df \<Rightarrow>
                               (case copy df sigmf_data_path w3 of
                                  (Inl e, w4) \<Rightarrow> (Inl e, w4)
                                | (Inr u, w4) \<Rightarrow>
                                    (case tar_add w4 tmpdir nm of
                                       Inl e \<Rightarrow> (Inl e, w4)
                                     | Inr infos \<Rightarrow>
                                         (let tf' = tf @ infos;
                                              w5 = write_file (tw_name out)
                                                     (container (tw_after_junk out) tf') w4
                                          in (Inr tf', rmtree tmpdir w5))))))))"

fun archive_loop ::
  "(json \<Rightarrow> bytes) \<Rightarrow> tar_writer \<Rightarrow> sigmffile list \<Rightarrow> tarinfo list \<Rightarrow> world
     \<Rightarrow> (error + tarinfo list) \<times> world" where
  "archive_loop dump out [] tf w = (Inr tf, w)"
| "archive_loop dump out (sigmffile # sigmffiles) tf w =
     (case archive_one dump out sigmffile tf w of
        (Inl e, w') \<Rightarrow> (Inl e, w')
      | (Inr tf', w') \<Rightarrow> archive_loop dump out sigmffiles tf' w')"

text \<open>
  \<^verbatim>\<open>SigMFArchive.__init__(sigmffiles, path, fileobj)\<close>. The result is the final
  \<^verbatim>\<open>self.path\<close>, the (absolute) name of the container. Closing the container
  completes the stream that has been written through.
\<close>

definition SigMFArchive_init ::
  "(json \<Rightarrow> bytes) \<Rightarrow> sigmffiles_arg \<Rightarrow> path option \<Rightarrow> fileobj option \<Rightarrow> world
     \<Rightarrow> (error + path) \<times> world" where
  "SigMFArchive_init dump sigmffiles path fileobj w =
     (let sfs = (case sigmffiles of Iterable xs \<Rightarrow> xs | Single x \<Rightarrow> [x]) in
      case check_input path sfs of
        Inl e \<Rightarrow> (Inl e, w)
      | Inr path' \<Rightarrow>
          (case get_output_fileobj path' fileobj w of
             (Inl e, w1) \<Rightarrow> (Inl e, w1)
           | (Inr sigmf_fileobj, w1) \<Rightarrow>
               (let (after_junk, tf0) = TarFile_init fileobj w1 sigmf_fileobj;
                    sigmf_archive = \<lparr>tw_name = sigmf_fileobj, tw_after_junk = after_junk\<rparr>
                in case archive_loop dump sigmf_archive sfs tf0 w1 of
                     (Inl e, w2) \<Rightarrow> (Inl e, w2)
                   | (Inr tf, w2) \<Rightarrow>
                       (let w3 = write_file sigmf_fileobj (container after_junk tf) w2;
                            w4 = (if fileobj = None then close_file sigmf_fileobj w3 else w3)
                        in (Inr sigmf_fileobj, w4)))))"

section \<open>Extracting\<close>

record tarfile =
  tf_name :: path
  tf_members :: "tarinfo list"
  tf_truncated :: bool

text \<open>
  \<^verbatim>\<open>tarfile.open(p, mode="r")\<close> reads the first header: it fails with \<^verbatim>\<open>OSError\<close> on a
  missing file or a directory and with \<^verbatim>\<open>ReadError\<close> on a file that does not start
  as a tar stream. \<^verbatim>\<open>getmembers()\<close> reads the rest and raises \<^verbatim>\<open>ReadError\<close>
  ("unexpected end of data") on a truncated stream.
\<close>

definition tarfile_open :: "path \<Rightarrow> world \<Rightarrow> (error + tarfile) \<times> world" where
  "tarfile_open p w =
     (case fs_get w p of
        Some (File m (Tar ms t)) \<Rightarrow>
          (if ms = [] \<and> t then (Inl ReadError, w)
           else (Inr \<lparr>tf_name = abspath w p, tf_members = ms, tf_truncated = t\<rparr>,
                 w\<lparr>opened := abspath w p # opened w\<rparr>))
      | Some (File m (Raw bs)) \<Rightarrow> (Inl ReadError, w)
      | Some (File m (Junk ms)) \<Rightarrow> (Inl ReadError, w)
      | _ \<Rightarrow> (Inl OSError, w))"

definition getmembers :: "tarfile \<Rightarrow> error + tarinfo list" where
  "getmembers archive =
     (if tf_truncated archive then Inl ReadError else Inr (tf_members archive))"

definition tarfile_close :: "tarfile \<Rightarrow> world \<Rightarrow> world" where
  "tarfile_close archive w = close_file (tf_name archive) w"

text \<open>
  \<^verbatim>\<open>extractall(path=dir)\<close>, member by member in order, with the permission bits of
  the member. It raises \<^verbatim>\<open>OSError\<close> when \<open>dir\<close> is a regular file and when a member
  would replace a node of the other kind. Other host failures are not modelled.
\<close>

fun extractall :: "path \<Rightarrow> tarinfo list \<Rightarrow> world \<Rightarrow> (error + unit) \<times> world" where
  "extractall dir [] w = (Inr (), w)"
| "extractall dir (member # members) w =
     (let target = abspath w (join dir (ti_name member)) in
      case fs_get w dir of
        Some (File m c) \<Rightarrow> (Inl OSError, w)
      | _ \<Rightarrow>
          (case map_of (fs w) target of
             Some (File m c) \<Rightarrow>
               (if isdir member then (Inl OSError, w)
                else extractall dir members
                       (fs_put target (File (ti_mode member) (ti_data member)) w))
           | Some (Dir m) \<Rightarrow>
               (if isdir member
                then extractall dir members (fs_put target (Dir (ti_mode member)) w)
                else (Inl OSError, w))
           | None \<Rightarrow>
               extractall dir members
                 (fs_put target
                    (if isdir member then Dir (ti_mode member)
                     else File (ti_mode member) (ti_data member)) w)))"

text \<open>
  \<^verbatim>\<open>archive.extractfile(member)\<close>: the bytes of a regular file, \<^verbatim>\<open>None\<close> for a
  directory. \<^verbatim>\<open>json.load\<close> is a parameter \<open>json_load\<close> of the model: \<open>None\<close> when the
  bytes are not UTF-8 JSON. A member whose data holds a tar stream is not JSON
  text.
\<close>

definition extractfile :: "tarinfo \<Rightarrow> content option" where
  "extractfile member = (if isdir member then None else Some (ti_data member))"

definition load_member :: "(bytes \<Rightarrow> json option) \<Rightarrow> tarinfo \<Rightarrow> error + json" where
  "load_member json_load member =
     (case extractfile member of
        None \<Rightarrow> Inl AttributeError
      | Some (Tar ms t) \<Rightarrow> Inl FormatError
      | Some (Junk ms) \<Rightarrow> Inl FormatError
      | Some (Raw bs) \<Rightarrow>
          (case json_load bs of None \<Rightarrow> Inl FormatError | Some v \<Rightarrow> Inr v))"

text \<open>
  The loop over the members, with its two trackers \<^verbatim>\<open>data_file\<close> and \<^verbatim>\<open>metadata\<close>
  (\<open>cur_data\<close>, \<open>cur_md\<close>). A tracker is \<^verbatim>\<open>None\<close> or a value; a metadata document that
  is JSON \<^verbatim>\<open>null\<close> is \<^verbatim>\<open>None\<close> too.
\<close>

definition py_value :: "json \<Rightarrow> json option" where
  "py_value v = (if v = JNull then None else Some v)"

fun scan ::
  "(bytes \<Rightarrow> json option) \<Rightarrow> path \<Rightarrow> tarinfo list \<Rightarrow> path option \<Rightarrow> json option
     \<Rightarrow> extracted list \<Rightarrow> error + extracted list" where
  "scan json_load dir [] cur_data cur_md sigmffiles = Inr sigmffiles"
| "scan json_load dir (member # members) cur_data cur_md sigmffiles =
     (case (if endswith (ti_name member) SIGMF_DATASET_EXT
            then Inr (Some (join dir (ti_name member)), cur_md)
            else if endswith (ti_name member) SIGMF_METADATA_EXT
            then (case load_member json_load member of
                    Inl e \<Rightarrow> Inl e
                  | Inr v \<Rightarrow> Inr (cur_data, py_value v))
            else Inr (cur_data, cur_md)) of
        Inl e \<Rightarrow> Inl e
      | Inr (Some d, Some m) \<Rightarrow>
          scan json_load dir members None None
            (sigmffiles @ [\<lparr>ex_metadata = m, ex_data_file = d\<rparr>])
      | Inr (cur_data', cur_md') \<Rightarrow>
          scan json_load dir members cur_data' cur_md' sigmffiles)"

text \<open>The function \<^verbatim>\<open>extract(archive_path, dir)\<close> (\<open>extract\<close> is a reserved word here).\<close>

definition extract_archive ::
  "(bytes \<Rightarrow> json option) \<Rightarrow> path \<Rightarrow> path option \<Rightarrow> world
     \<Rightarrow> (error + extracted list) \<times> world" where
  "extract_archive json_load archive_path dir w =
     (case (if not_set dir then mkdtemp w else (the dir, w)) of
        (dir', w1) \<Rightarrow>
          (case tarfile_open archive_path w1 of
             (Inl e, w2) \<Rightarrow> (Inl e, w2)
           | (Inr archive, w2) \<Rightarrow>
               (case getmembers archive of
                  Inl e \<Rightarrow> (Inl e, w2)
                | Inr members \<Rightarrow>
                    (case (case extractall dir' members w2 of
                             (Inl e, w3) \<Rightarrow> (Inl e, w3)
                           | (Inr u, w3) \<Rightarrow> (scan json_load dir' members None None [], w3)) of
                       (r, w3) \<Rightarrow> (r, tarfile_close archive w3)))))"

section \<open>Sample data for closed examples\<close>

text \<open>
  \<^verbatim>\<open>json.load\<close> and the handle's \<^verbatim>\<open>dump\<close> are parameters of the model. For closed
  examples they are instantiated on three documents, on which they agree with
  Python: the texts \<^verbatim>\<open>{}\<close>, \<^verbatim>\<open>[]\<close> and \<^verbatim>\<open>null\<close>; every other text used in an example
  (\<^verbatim>\<open>{\<close>) is malformed JSON.
\<close>

definition json_load_sample :: "bytes \<Rightarrow> json option" where
  "json_load_sample b =
     (if b = ''{}'' then Some (JObject [])
      else if b = ''[]'' then Some (JArray [])
      else if b = ''null'' then Some JNull
      else None)"

definition dump_sample :: "json \<Rightarrow> bytes" where
  "dump_sample m = (if m = JObject [] then ''{}'' else if m = JArray [] then ''[]'' else ''null'')"

definition world_sample :: world where
  "world_sample =
     \<lparr>cwd = ''/'', umask = 18,
      fs = [(''/d1.bin'', File 384 (Raw ''abc'')), (''/d2.bin'', File 420 (Raw ''xyz'')),
            (''/out'', Dir 493), (''/out/sink.tar'', File 384 (Raw []))],
      ntemp = 0, opened = []\<rparr>"

definition rec_a :: sigmffile where
  "rec_a = \<lparr>name = Some ''a'', metadata = JObject [], data_file = Some ''/d1.bin'',
            validate = True\<rparr>"

definition rec_b :: sigmffile where
  "rec_b = \<lparr>name = Some ''b'', metadata = JArray [], data_file = Some ''d2.bin'',
            validate = True\<rparr>"

definition sink_sample :: fileobj where
  "sink_sample = \<lparr>fo_name = ''/out/sink.tar'', fo_writable = True\<rparr>"

text \<open>Three runs of the packer: two recordings to a path, and one recording after another
  into the same sink.\<close>

definition run_sample :: "(error + path) \<times> world" where
  "run_sample =
     SigMFArchive_init dump_sample (Iterable [rec_a, rec_b]) (Some ''/out/x'') None
       world_sample"

definition run_sink1 :: "(error + path) \<times> world" where
  "run_sink1 = SigMFArchive_init dump_sample (Single rec_a) None (Some sink_sample) world_sample"

definition run_sink2 :: "(error + path) \<times> world" where
  "run_sink2 =
     SigMFArchive_init dump_sample (Single rec_b) None (Some sink_sample) (snd run_sink1)"

text \<open>
  A world with two sinks that hold no complete tar stream: one member whose data is cut
  short, and bytes that are no tar stream. One recording is packed into each.
\<close>

definition world_sinks :: world where
  "world_sinks =
     \<lparr>cwd = ''/'', umask = 18,
      fs = [(''/d1.bin'', File 384 (Raw ''abc'')), (''/out'', Dir 493),
            (''/out/cut.tar'', File 384 (Tar [TarInfo ''old.bin'' False 511 (Raw ''ab'')] True)),
            (''/out/other.tar'', File 384 (Raw ''no tar''))],
      ntemp = 0, opened = []\<rparr>"

definition run_cut :: "(error + path) \<times> world" where
  "run_cut =
     SigMFArchive_init dump_sample (Single rec_a) None
       (Some \<lparr>fo_name = ''/out/cut.tar'', fo_writable = True\<rparr>) world_sinks"

definition run_other :: "(error + path) \<times> world" where
  "run_other =
     SigMFArchive_init dump_sample (Single rec_a) None
       (Some \<lparr>fo_name = ''/out/other.tar'', fo_writable = True\<rparr>) world_sinks"

text \<open>A world with two containers that hold malformed metadata.\<close>

definition world_bad :: world where
  "world_bad =
     \<lparr>cwd = ''/'', umask = 18,
      fs = [(''/out'', Dir 493), (''/d1.bin'', File 384 (Raw ''abc'')),
            (''/out/bad.sigmf'',
             File 420 (Tar [TarInfo ''a'' True 493 (Raw []),
                            TarInfo ''a/a.sigmf-data'' False 420 (Raw ''abc''),
                            TarInfo ''a/a.sigmf-meta'' False 420 (Raw ''{'')] False)),
            (''/out/odd.sigmf'',
             File 420 (Tar [TarInfo ''r.sigmf-meta'' True 493 (Raw []),
                            TarInfo ''r.sigmf-meta/r.sigmf-meta.sigmf-data'' False 420
                              (Raw ''abc''),
                            TarInfo ''r.sigmf-meta/r.sigmf-meta.sigmf-meta'' False 420
                              (Raw ''{'')] False))],
      ntemp = 0, opened = []\<rparr>"

text \<open>A recording whose data file does not exist, and a run that packs it.\<close>

definition rec_missing :: sigmffile where
  "rec_missing = rec_a\<lparr>data_file := Some ''/nowhere.bin''\<rparr>"

definition run_missing :: "(error + path) \<times> world" where
  "run_missing =
     SigMFArchive_init dump_sample (Single rec_missing) (Some ''/out/x'') None world_sample"

section \<open>Vocabulary of the properties\<close>

text \<open>
  The members a file holds: those of its tar stream, found by a reader or not; and the
  members of the file at \<open>p\<close>, a sink before it is packed into.
\<close>

definition members_in :: "content \<Rightarrow> tarinfo list" where
  "members_in c = (case c of Raw bs \<Rightarrow> [] | Tar ms t \<Rightarrow> ms | Junk ms \<Rightarrow> ms)"

definition sink_members :: "world \<Rightarrow> path \<Rightarrow> tarinfo list" where
  "sink_members w p = (case map_of (fs w) p of Some (File m c) \<Rightarrow> members_in c | _ \<Rightarrow> [])"

text \<open>The permission contract of a member: \<^verbatim>\<open>0o755\<close> for a directory, \<^verbatim>\<open>0o644\<close> otherwise.\<close>

definition perm_ok :: "tarinfo \<Rightarrow> bool" where
  "perm_ok t = (ti_mode t = (if isdir t then 493 else 420))"

text \<open>A world with a truncated container: its headers are intact, its data is cut short.\<close>

definition world_cut :: world where
  "world_cut =
     \<lparr>cwd = ''/'', umask = 18,
      fs = [(''/out'', Dir 493),
            (''/out/cut.sigmf'',
             File 420 (Tar [TarInfo ''a'' True 493 (Raw []),
                            TarInfo ''a/a.sigmf-data'' False 420 (Raw ''abc'')] True))],
      ntemp = 0, opened = []\<rparr>"

text \<open>
  The pairing rule in the words of the specification, for comparison with \<open>scan\<close>: each
  entry contributes an event (a dataset path seen, a metadata document seen, nothing,
  or the failure to parse); the entries are scanned in order, and whenever both a
  dataset and a metadata document have been seen since the last pairing, one handle is
  built from them and both are forgotten. The rule receives the events only: it has
  no access to directory names.
\<close>

datatype event = DataSeen path | MetaSeen json | Skipped

definition entry_event :: "(bytes \<Rightarrow> json option) \<Rightarrow> path \<Rightarrow> tarinfo \<Rightarrow> error + event" where
  "entry_event json_load dir member =
     (if endswith (ti_name member) SIGMF_DATASET_EXT
      then Inr (DataSeen (join dir (ti_name member)))
      else if endswith (ti_name member) SIGMF_METADATA_EXT
      then (case load_member json_load member of
              Inl e \<Rightarrow> Inl e
            | Inr v \<Rightarrow> Inr (MetaSeen v))
      else Inr Skipped)"

fun pair_in_order ::
  "(error + event) list \<Rightarrow> path option \<Rightarrow> json option \<Rightarrow> error + extracted list" where
  "pair_in_order [] seen_data seen_md = Inr []"
| "pair_in_order (Inl e # evs) seen_data seen_md = Inl e"
| "pair_in_order (Inr ev # evs) seen_data seen_md =
     (let seen_data' = (case ev of DataSeen p \<Rightarrow> Some p | _ \<Rightarrow> seen_data);
          seen_md' = (case ev of MetaSeen v \<Rightarrow> Some v | _ \<Rightarrow> seen_md)
      in case (seen_data', seen_md') of
           (Some p, Some v) \<Rightarrow>
             (case pair_in_order evs None None of
                Inl e \<Rightarrow> Inl e
              | Inr hs \<Rightarrow> Inr (\<lparr>ex_metadata = v, ex_data_file = p\<rparr> # hs))
         | _ \<Rightarrow> pair_in_order evs seen_data' seen_md')"

text \<open>A metadata entry whose document is JSON \<^verbatim>\<open>null\<close>.\<close>

definition null_document :: "(bytes \<Rightarrow> json option) \<Rightarrow> tarinfo \<Rightarrow> bool" where
  "null_document json_load member =
     (\<not> endswith (ti_name member) SIGMF_DATASET_EXT
      \<and> endswith (ti_name member) SIGMF_METADATA_EXT
      \<and> load_member json_load member = Inr JNull)"

text \<open>
  A metadata-suffixed regular file whose bytes are not UTF-8 JSON, and a member at
  which the loop of \<^verbatim>\<open>extract\<close> raises.
\<close>

definition malformed :: "(bytes \<Rightarrow> json option) \<Rightarrow> tarinfo \<Rightarrow> bool" where
  "malformed json_load member =
     (\<not> isdir member \<and> endswith (ti_name member) SIGMF_METADATA_EXT
      \<and> (case ti_data member of Raw bs \<Rightarrow> json_load bs = None | Tar ms t \<Rightarrow> True
                                 | Junk ms \<Rightarrow> True))"

definition member_fails :: "(bytes \<Rightarrow> json option) \<Rightarrow> tarinfo \<Rightarrow> bool" where
  "member_fails json_load member =
     (\<not> endswith (ti_name member) SIGMF_DATASET_EXT
      \<and> endswith (ti_name member) SIGMF_METADATA_EXT
      \<and> isl (load_member json_load member))"

text \<open>
  The staging directory number \<open>j\<close> is gone: its path is not a directory and nothing
  lies below it.
\<close>

definition staging_gone :: "nat \<Rightarrow> world \<Rightarrow> bool" where
  "staging_gone j w =
     ((case map_of (fs w) (tmp_path j) of Some (Dir m) \<Rightarrow> False | _ \<Rightarrow> True)
      \<and> list_all (\<lambda>(k, n). \<not> startswith k (tmp_path j @ ''/'')) (fs w))"













section \<open>Path suffixes\<close>

lemma after_last_suffix: "suffix (after_last c s) s"
  unfolding after_last_def
  by (metis suffix_to_prefix rev_rev_ident takeWhile_is_prefix)

lemma after_last_notin: "c \<notin> set (after_last c s)"
  unfolding after_last_def
  by (metis (mono_tags, lifting) set_rev set_takeWhileD)

lemma after_last_Cons_suffix:
  assumes "c \<in> set s"
  shows "suffix (c # after_last c s) s"
proof -
  from assms have "c \<in> set (rev s)" by simp
  then obtain ys zs where yz: "rev s = ys @ c # zs" "c \<notin> set ys"
    by (meson split_list_first)
  have "takeWhile (\<lambda>x. x \<noteq> c) (ys @ c # zs) = ys"
    using yz(2) by (induction ys) auto
  then have r: "rev s = takeWhile (\<lambda>x. x \<noteq> c) (rev s) @ c # zs"
    using yz(1) by simp
  have "s = rev (rev s)" by simp
  also have "\<dots> = rev zs @ c # after_last c s"
    by (subst r) (simp add: after_last_def)
  finally show ?thesis by (metis suffixI)
qed

lemma dotted_suffix_unique:
  assumes "suffix (c # t) p" "suffix (c # u) p" "c \<notin> set t" "c \<notin> set u"
  shows "t = u"
proof -
  from assms(1,2) have "suffix (c # t) (c # u) \<or> suffix (c # u) (c # t)"
    by (metis suffix_same_cases)
  then show ?thesis using assms(3,4)
    by (auto simp: suffix_Cons dest: set_mono_suffix)
qed

lemma splitext_ext_suffix:
  assumes "snd (splitext p) \<noteq> []"
  shows "\<exists>t. snd (splitext p) = CHR ''.'' # t \<and> CHR ''.'' \<notin> set t
             \<and> suffix (CHR ''.'' # t) p"
proof -
  define body where "body = dropWhile (\<lambda>x. x = CHR ''.'') (after_last CHR ''/'' p)"
  from assms have d: "CHR ''.'' \<in> set body"
    by (auto simp: splitext_def Let_def body_def split: if_splits)
  then have e: "snd (splitext p) = CHR ''.'' # after_last CHR ''.'' body"
    by (simp add: splitext_def Let_def body_def)
  have "suffix body (after_last CHR ''/'' p)"
    unfolding body_def by (rule suffix_dropWhile)
  then have "suffix body p" using after_last_suffix suffix_order.trans by blast
  moreover have "suffix (CHR ''.'' # after_last CHR ''.'' body) body"
    using d by (rule after_last_Cons_suffix)
  ultimately have "suffix (CHR ''.'' # after_last CHR ''.'' body) p"
    using suffix_order.trans by blast
  then show ?thesis using e after_last_notin by blast
qed

text \<open>
  What \<^verbatim>\<open>_ensure_path_has_correct_extension\<close> does with a path: one that ends in
  \<^verbatim>\<open>.sigmf\<close> is kept, one without any dot gets the suffix, one whose extension (in
  the sense of \<^verbatim>\<open>os.path.splitext\<close>) is another one is refused.
\<close>

lemma ext_correct_kept:
  "endswith p SIGMF_ARCHIVE_EXT \<Longrightarrow> ensure_path_has_correct_extension (Some p) = Inr (Some p)"
  by (simp add: ensure_path_has_correct_extension_def)

lemma ext_no_dot_appended:
  assumes "CHR ''.'' \<notin> set p"
  shows "ensure_path_has_correct_extension (Some p) = Inr (Some (p @ SIGMF_ARCHIVE_EXT))"
proof -
  have "\<not> endswith p SIGMF_ARCHIVE_EXT"
  proof
    assume "endswith p SIGMF_ARCHIVE_EXT"
    then have "set SIGMF_ARCHIVE_EXT \<subseteq> set p"
      unfolding endswith_def by (rule set_mono_suffix)
    with assms show False by (simp add: SIGMF_ARCHIVE_EXT_def)
  qed
  with assms show ?thesis by (simp add: ensure_path_has_correct_extension_def)
qed

lemma ext_mismatch_rejected:
  assumes "snd (splitext p) \<noteq> []" "snd (splitext p) \<noteq> SIGMF_ARCHIVE_EXT"
  shows "ensure_path_has_correct_extension (Some p) = Inl FileError"
proof -
  from splitext_ext_suffix[OF assms(1)] obtain t where
    t: "snd (splitext p) = CHR ''.'' # t" "CHR ''.'' \<notin> set t" "suffix (CHR ''.'' # t) p"
    by blast
  have dot: "CHR ''.'' \<in> set p"
    using t(3) by (metis list.set_intros(1) set_mono_suffix subsetD)
  have "\<not> endswith p SIGMF_ARCHIVE_EXT"
  proof
    assume "endswith p SIGMF_ARCHIVE_EXT"
    then have "suffix (CHR ''.'' # ''sigmf'') p"
      by (simp add: endswith_def SIGMF_ARCHIVE_EXT_def)
    from dotted_suffix_unique[OF t(3) this t(2)] have "t = ''sigmf''" by simp
    with t(1) assms(2) show False by (simp add: SIGMF_ARCHIVE_EXT_def)
  qed
  with dot show ?thesis by (simp add: ensure_path_has_correct_extension_def)
qed

text \<open>
  C4. The claim: a destination path with no suffix gets \<^verbatim>\<open>.sigmf\<close> appended, one that
  ends in \<^verbatim>\<open>.sigmf\<close> is used unchanged, one with another suffix fails with FileError.
  The code decides "has a suffix" by \<^verbatim>\<open>"." in path\<close>, a dot anywhere in the string.
  The path \<^verbatim>\<open>./x\<close> has no suffix (\<^verbatim>\<open>os.path.splitext\<close>, which the code itself uses to
  name the "apparent extension", returns the empty extension for it), and yet it
  is refused with FileError instead of being resolved to \<^verbatim>\<open>./x.sigmf\<close>.
\<close>

theorem C4_dot_outside_suffix_is_refused:
  "snd (splitext ''./x'') = []
   \<and> ensure_path_has_correct_extension (Some ''./x'') = Inl FileError"
  by (simp add: splitext_def after_last_def ensure_path_has_correct_extension_def
      endswith_def SIGMF_ARCHIVE_EXT_def suffix_def)

section \<open>Pre-flight checks\<close>

lemma check_sigmffile_eq:
  "check_sigmffile sf =
     (if not_set (name sf) then Inl FileError
      else if not_set (data_file sf) then Inl FileError
      else if \<not> validate sf then Inl ValidationError
      else Inr ())"
  by (simp add: check_sigmffile_def ensure_sigmffile_name_set_def
      ensure_sigmffile_data_file_set_def validate_sigmffile_metadata_def)

lemma check_sigmffiles_first_failing:
  "check_sigmffiles sfs =
     (case find (\<lambda>sf. check_sigmffile sf \<noteq> Inr ()) sfs of
        None \<Rightarrow> Inr ()
      | Some bad \<Rightarrow> check_sigmffile bad)"
  by (induction sfs) (auto split: sum.splits)

lemma init_check_failure:
  assumes "check_input path (case sigmffiles of Iterable xs \<Rightarrow> xs | Single x \<Rightarrow> [x]) = Inl e"
  shows "SigMFArchive_init dump sigmffiles path fileobj w = (Inl e, w)"
  using assms by (simp add: SigMFArchive_init_def)

text \<open>
  C3. Every handle is checked before anything is written: a handle whose name is not
  set fails with FileError, one whose data file is not set fails with FileError, one
  whose \<^verbatim>\<open>validate()\<close> is false fails with ValidationError. When the checks fail the
  constructor returns that error and the world is the one it started from: the
  destination has not been opened, no staging directory exists, no byte is written.
  With a path that passes the suffix check, the error is that of the first failing
  handle.
\<close>

theorem C3_checks_precede_every_write:
  "check_sigmffile sf =
     (if not_set (name sf) then Inl FileError
      else if not_set (data_file sf) then Inl FileError
      else if \<not> validate sf then Inl ValidationError
      else Inr ())
   \<and> (check_input path sfs = Inl e \<longrightarrow>
        SigMFArchive_init dump (Iterable sfs) path fileobj w = (Inl e, w))
   \<and> (ensure_path_has_correct_extension path = Inr path'
        \<and> find (\<lambda>sf. check_sigmffile sf \<noteq> Inr ()) sfs = Some bad \<longrightarrow>
        (\<exists>e. check_sigmffile bad = Inl e
             \<and> SigMFArchive_init dump (Iterable sfs) path fileobj w = (Inl e, w)))"
proof (intro conjI impI)
  show "check_sigmffile sf =
     (if not_set (name sf) then Inl FileError
      else if not_set (data_file sf) then Inl FileError
      else if \<not> validate sf then Inl ValidationError
      else Inr ())"
    by (rule check_sigmffile_eq)
next
  assume "check_input path sfs = Inl e"
  then show "SigMFArchive_init dump (Iterable sfs) path fileobj w = (Inl e, w)"
    by (simp add: init_check_failure)
next
  assume a: "ensure_path_has_correct_extension path = Inr path'
             \<and> find (\<lambda>sf. check_sigmffile sf \<noteq> Inr ()) sfs = Some bad"
  then have "check_sigmffile bad \<noteq> Inr ()"
    by (auto simp: find_Some_iff)
  then obtain e where e: "check_sigmffile bad = Inl e"
    by (cases "check_sigmffile bad") auto
  with a have "check_input path sfs = Inl e"
    by (simp add: check_input_def check_sigmffiles_first_failing)
  then have "SigMFArchive_init dump (Iterable sfs) path fileobj w = (Inl e, w)"
    by (simp add: init_check_failure)
  with e show "\<exists>e. check_sigmffile bad = Inl e
                \<and> SigMFArchive_init dump (Iterable sfs) path fileobj w = (Inl e, w)"
    by blast
qed

theorem C3_checks_precede_every_write_witness:
  "check_input (Some ''/out/x'') [rec_a, rec_b\<lparr>validate := False\<rparr>, rec_b\<lparr>name := None\<rparr>]
     = Inl ValidationError
   \<and> ensure_path_has_correct_extension (Some ''/out/x'') = Inr (Some ''/out/x.sigmf'')
   \<and> find (\<lambda>sf. check_sigmffile sf \<noteq> Inr ())
        [rec_a, rec_b\<lparr>validate := False\<rparr>, rec_b\<lparr>name := None\<rparr>]
      = Some (rec_b\<lparr>validate := False\<rparr>)
   \<and> check_sigmffile (rec_b\<lparr>validate := False\<rparr>) = Inl ValidationError
   \<and> SigMFArchive_init dump_sample
        (Iterable [rec_a, rec_b\<lparr>validate := False\<rparr>, rec_b\<lparr>name := None\<rparr>])
        (Some ''/out/x'') None world_sample
      = (Inl ValidationError, world_sample)"
proof -
  have c: "check_input (Some ''/out/x'')
             [rec_a, rec_b\<lparr>validate := False\<rparr>, rec_b\<lparr>name := None\<rparr>]
           = Inl ValidationError"
    by (simp add: check_input_def ensure_path_has_correct_extension_def endswith_def
        SIGMF_ARCHIVE_EXT_def suffix_def check_sigmffile_eq not_set_def rec_a_def rec_b_def)
  have p: "ensure_path_has_correct_extension (Some ''/out/x'') = Inr (Some ''/out/x.sigmf'')"
    by (simp add: ensure_path_has_correct_extension_def endswith_def
        SIGMF_ARCHIVE_EXT_def suffix_def)
  have f: "find (\<lambda>sf. check_sigmffile sf \<noteq> Inr ())
             [rec_a, rec_b\<lparr>validate := False\<rparr>, rec_b\<lparr>name := None\<rparr>]
           = Some (rec_b\<lparr>validate := False\<rparr>)"
    by (simp add: check_sigmffile_eq not_set_def rec_a_def rec_b_def)
  have k: "check_sigmffile (rec_b\<lparr>validate := False\<rparr>) = Inl ValidationError"
    by (simp add: check_sigmffile_eq not_set_def rec_b_def)
  from C3_checks_precede_every_write
         [of "rec_b\<lparr>validate := False\<rparr>" "Some ''/out/x''"
             "[rec_a, rec_b\<lparr>validate := False\<rparr>, rec_b\<lparr>name := None\<rparr>]"
             ValidationError dump_sample None world_sample]
       c p f k
  show ?thesis by simp
qed

section \<open>The argument of the constructor\<close>

text \<open>
  C9. With both a sink and a path, the path is still checked: a path whose extension
  is present and is not \<^verbatim>\<open>.sigmf\<close> makes the constructor fail with FileError, and the
  world is untouched (nothing is written to the sink, nothing is opened).
\<close>

theorem C9_path_is_checked_beside_a_sink:
  assumes "snd (splitext p) \<noteq> []" and "snd (splitext p) \<noteq> SIGMF_ARCHIVE_EXT"
  shows "SigMFArchive_init dump sigmffiles (Some p) (Some fileobj) w = (Inl FileError, w)"
proof -
  have "ensure_path_has_correct_extension (Some p) = Inl FileError"
    using assms by (rule ext_mismatch_rejected)
  then show ?thesis
    by (simp add: SigMFArchive_init_def check_input_def)
qed

theorem C9_path_is_checked_beside_a_sink_witness:
  "snd (splitext ''/out/x.zip'') = ''.zip''
   \<and> SigMFArchive_init dump_sample (Iterable [rec_a]) (Some ''/out/x.zip'')
        (Some sink_sample) world_sample
      = (Inl FileError, world_sample)"
proof -
  have e: "snd (splitext ''/out/x.zip'') = ''.zip''"
    by (simp add: splitext_def after_last_def)
  then have "snd (splitext ''/out/x.zip'') \<noteq> []"
    and "snd (splitext ''/out/x.zip'') \<noteq> SIGMF_ARCHIVE_EXT"
    by (simp_all add: SIGMF_ARCHIVE_EXT_def)
  from C9_path_is_checked_beside_a_sink[OF this] e show ?thesis by simp
qed

text \<open>
  C10. A single handle in place of a sequence is wrapped into a one-element list:
  packing it is packing the list that holds just it.
\<close>

theorem C10_single_handle_is_wrapped:
  "SigMFArchive_init dump (Single sf) path fileobj w
     = SigMFArchive_init dump (Iterable [sf]) path fileobj w"
  by (simp add: SigMFArchive_init_def)

section \<open>Permission bits\<close>

lemma perm_ok_chmod: "perm_ok (chmod t)"
  by (simp add: perm_ok_def chmod_def)

lemma perm_ok_add_children: "list_all perm_ok (add_children w nm arcname fs')"
  by (induction fs') (auto simp: add_children_def perm_ok_chmod split: sum.splits)

lemma perm_ok_tar_add: "tar_add w nm arcname = Inr infos \<Longrightarrow> list_all perm_ok infos"
  by (auto simp: tar_add_def perm_ok_chmod perm_ok_add_children split: sum.splits)

lemma archive_one_members:
  assumes "archive_one dump out sf tf w = (Inr tf', w')"
  shows "\<exists>new. tf' = tf @ new \<and> list_all perm_ok new"
  using assms
  by (auto simp: archive_one_def Let_def split: prod.splits option.splits sum.splits
      dest: perm_ok_tar_add)

lemma archive_loop_members:
  "archive_loop dump out sfs tf w = (Inr tf', w') \<Longrightarrow>
     \<exists>new. tf' = tf @ new \<and> list_all perm_ok new"
proof (induction sfs arbitrary: tf w)
  case Nil
  then show ?case by simp
next
  case (Cons sf sfs)
  from Cons.prems obtain tf1 w1 where
    one: "archive_one dump out sf tf w = (Inr tf1, w1)"
    and rest: "archive_loop dump out sfs tf1 w1 = (Inr tf', w')"
    by (auto split: prod.splits sum.splits)
  from archive_one_members[OF one] obtain n1 where n1: "tf1 = tf @ n1" "list_all perm_ok n1"
    by blast
  from Cons.IH[OF rest] obtain n2 where n2: "tf' = tf1 @ n2" "list_all perm_ok n2"
    by blast
  from n1 n2 have "tf' = tf @ (n1 @ n2) \<and> list_all perm_ok (n1 @ n2)" by simp
  then show ?case by blast
qed

lemma write_file_content:
  "map_of (fs (write_file q c w)) q = Some (File m c') \<Longrightarrow> c' = c"
  by (auto simp: write_file_def fs_put_def split: option.splits node.splits)

lemma init_success:
  assumes "SigMFArchive_init dump sigmffiles path fileobj w = (Inr p, w')"
  shows "\<exists>path' w1 tf w2.
           check_input path (case sigmffiles of Iterable xs \<Rightarrow> xs | Single x \<Rightarrow> [x]) = Inr path'
         \<and> get_output_fileobj path' fileobj w = (Inr p, w1)
         \<and> archive_loop dump
              \<lparr>tw_name = p, tw_after_junk = fst (TarFile_init fileobj w1 p)\<rparr>
              (case sigmffiles of Iterable xs \<Rightarrow> xs | Single x \<Rightarrow> [x])
              (snd (TarFile_init fileobj w1 p)) w1 = (Inr tf, w2)
         \<and> w' = (if fileobj = None
                  then close_file p
                         (write_file p (container (fst (TarFile_init fileobj w1 p)) tf) w2)
                  else write_file p (container (fst (TarFile_init fileobj w1 p)) tf) w2)"
  using assms unfolding SigMFArchive_init_def Let_def
  by (auto split: sum.splits prod.splits)

lemma init_container:
  assumes "SigMFArchive_init dump sigmffiles path fileobj w = (Inr p, w')"
    and "map_of (fs w') p = Some (File m c)"
  shows "\<exists>w1 new. get_output_fileobj (projr (check_input path
                      (case sigmffiles of Iterable xs \<Rightarrow> xs | Single x \<Rightarrow> [x]))) fileobj w = (Inr p, w1)
          \<and> c = container (fst (TarFile_init fileobj w1 p))
                  (snd (TarFile_init fileobj w1 p) @ new)
          \<and> list_all perm_ok new"
proof -
  from init_success[OF assms(1)] obtain path' w1 tf w2 where
    a: "check_input path (case sigmffiles of Iterable xs \<Rightarrow> xs | Single x \<Rightarrow> [x]) = Inr path'"
    and b: "get_output_fileobj path' fileobj w = (Inr p, w1)"
    and l: "archive_loop dump
              \<lparr>tw_name = p, tw_after_junk = fst (TarFile_init fileobj w1 p)\<rparr>
              (case sigmffiles of Iterable xs \<Rightarrow> xs | Single x \<Rightarrow> [x])
              (snd (TarFile_init fileobj w1 p)) w1 = (Inr tf, w2)"
    and w': "w' = (if fileobj = None
                  then close_file p
                         (write_file p (container (fst (TarFile_init fileobj w1 p)) tf) w2)
                  else write_file p (container (fst (TarFile_init fileobj w1 p)) tf) w2)"
    by blast
  from w' have "fs w' = fs (write_file p (container (fst (TarFile_init fileobj w1 p)) tf) w2)"
    by (simp add: close_file_def)
  with assms(2) have c: "c = container (fst (TarFile_init fileobj w1 p)) tf"
    by (auto dest: write_file_content)
  from archive_loop_members[OF l] obtain new where
    "tf = snd (TarFile_init fileobj w1 p) @ new" "list_all perm_ok new" by blast
  with a b c show ?thesis by auto
qed

lemma sink_world: "get_output_fileobj path' (Some fo) w = (Inr p, w1) \<Longrightarrow> w1 = w"
  by (auto simp: get_output_fileobj_def get_open_fileobj_def split: if_splits)

lemma TarFile_init_kept:
  "list_all perm_ok (sink_members w p) \<Longrightarrow> list_all perm_ok (snd (TarFile_init fileobj w p))"
  by (auto simp: TarFile_init_def TarFile_append_def TarFile_write_over_def sink_members_def
      members_in_def split: option.splits node.splits content.splits bool.splits)

lemma members_in_container [simp]: "members_in (container b tf) = tf"
  by (simp add: container_def members_in_def)

lemma sink_retry_keeps_what_was_there:
  "fst run_cut = Inr ''/out/cut.tar''
   \<and> map_of (fs (snd run_cut)) ''/out/cut.tar''
       = Some (File 384 (Tar [TarInfo ''old.bin'' False 511 (Raw ''ab''),
                              TarInfo ''a'' True 493 (Raw []),
                              TarInfo ''a/a.sigmf-data'' False 420 (Raw ''abc''),
                              TarInfo ''a/a.sigmf-meta'' False 420 (Raw ''{}'')] False))
   \<and> fst run_other = Inr ''/out/other.tar''
   \<and> map_of (fs (snd run_other)) ''/out/other.tar''
       = Some (File 384 (Junk [TarInfo ''a'' True 493 (Raw []),
                               TarInfo ''a/a.sigmf-data'' False 420 (Raw ''abc''),
                               TarInfo ''a/a.sigmf-meta'' False 420 (Raw ''{}'')]))
   \<and> fst (tarfile_open ''/out/other.tar'' (snd run_other)) = Inl ReadError"
  by code_simp

text \<open>
  C5. Every member the packer adds carries mode \<^verbatim>\<open>0o755\<close> when it is a directory and
  \<^verbatim>\<open>0o644\<close> otherwise, whatever the umask of the world and the modes of the staged
  files: it holds for the members each run of the loop appends, hence for the whole
  container written to a path, and for all members in a sink afterwards whenever the
  members it held before satisfy the contract (they stay, also when the sink held no
  complete tar stream).
\<close>

theorem C5_permission_bits:
  "(archive_loop dump out sfs tf w = (Inr tf', w') \<longrightarrow>
      (\<exists>new. tf' = tf @ new \<and> list_all perm_ok new))
   \<and> (SigMFArchive_init dump sigmffiles path None w = (Inr p, w1)
        \<and> map_of (fs w1) p = Some (File m c) \<longrightarrow>
      (\<exists>ms. c = Tar ms False \<and> list_all perm_ok ms))
   \<and> (SigMFArchive_init dump sigmffiles path (Some fo) w = (Inr p, w1)
        \<and> map_of (fs w1) p = Some (File m c)
        \<and> list_all perm_ok (sink_members w p) \<longrightarrow>
      list_all perm_ok (members_in c))"
proof (intro conjI impI)
  assume "archive_loop dump out sfs tf w = (Inr tf', w')"
  then show "\<exists>new. tf' = tf @ new \<and> list_all perm_ok new"
    by (rule archive_loop_members)
next
  assume a: "SigMFArchive_init dump sigmffiles path None w = (Inr p, w1)
             \<and> map_of (fs w1) p = Some (File m c)"
  then obtain v new where
    "c = container (fst (TarFile_init None v p)) (snd (TarFile_init None v p) @ new)"
    "list_all perm_ok new"
    using init_container by blast
  then show "\<exists>ms. c = Tar ms False \<and> list_all perm_ok ms"
    by (auto simp: TarFile_init_def container_def)
next
  assume a: "SigMFArchive_init dump sigmffiles path (Some fo) w = (Inr p, w1)
             \<and> map_of (fs w1) p = Some (File m c)
             \<and> list_all perm_ok (sink_members w p)"
  then obtain v new where
    g: "get_output_fileobj (projr (check_input path
          (case sigmffiles of Iterable xs \<Rightarrow> xs | Single x \<Rightarrow> [x]))) (Some fo) w = (Inr p, v)"
    and c: "c = container (fst (TarFile_init (Some fo) v p))
                  (snd (TarFile_init (Some fo) v p) @ new)"
    and n: "list_all perm_ok new"
    using init_container by blast
  from g have "v = w" by (rule sink_world)
  with a have "list_all perm_ok (snd (TarFile_init (Some fo) v p))"
    by (simp add: TarFile_init_kept)
  with c n show "list_all perm_ok (members_in c)" by simp
qed

theorem C5_permission_bits_witness:
  "(\<exists>new. fst (archive_loop dump_sample \<lparr>tw_name = ''/out/sink.tar'', tw_after_junk = False\<rparr>
                 [rec_a] [] world_sample) = Inr new
          \<and> length new = 3 \<and> list_all perm_ok new)
   \<and> fst run_sample = Inr ''/out/x.sigmf''
   \<and> (\<exists>ms. map_of (fs (snd run_sample)) ''/out/x.sigmf'' = Some (File 420 (Tar ms False))
          \<and> length ms = 6 \<and> list_all perm_ok ms)
   \<and> fst run_sink2 = Inr ''/out/sink.tar''
   \<and> (\<exists>ms. map_of (fs (snd run_sink2)) ''/out/sink.tar'' = Some (File 384 (Tar ms False))
          \<and> length ms = 6 \<and> list_all perm_ok ms)"
proof -
  let ?a = "[TarInfo ''a'' True 493 (Raw []),
             TarInfo ''a/a.sigmf-data'' False 420 (Raw ''abc''),
             TarInfo ''a/a.sigmf-meta'' False 420 (Raw ''{}'')]"
  let ?ab = "?a @ [TarInfo ''b'' True 493 (Raw []),
             TarInfo ''b/b.sigmf-data'' False 420 (Raw ''xyz''),
             TarInfo ''b/b.sigmf-meta'' False 420 (Raw ''[]'')]"
  let ?L = "archive_loop dump_sample \<lparr>tw_name = ''/out/sink.tar'', tw_after_junk = False\<rparr>
              [rec_a] [] world_sample"
  have l: "fst ?L = Inr ?a" by code_simp
  then have "?L = (Inr ?a, snd ?L)" by (metis prod.collapse)
  from C5_permission_bits[THEN conjunct1, rule_format, OF this]
  have p1: "list_all perm_ok ?a" by simp
  have r: "fst run_sample = Inr ''/out/x.sigmf''" by code_simp
  then have r': "SigMFArchive_init dump_sample (Iterable [rec_a, rec_b]) (Some ''/out/x'') None
                   world_sample = (Inr ''/out/x.sigmf'', snd run_sample)"
    unfolding run_sample_def by (metis prod.collapse)
  have m: "map_of (fs (snd run_sample)) ''/out/x.sigmf'' = Some (File 420 (Tar ?ab False))"
    by code_simp
  from C5_permission_bits[THEN conjunct2, THEN conjunct1, rule_format, OF conjI[OF r' m]]
  have p2: "list_all perm_ok ?ab" by simp
  have s: "fst run_sink2 = Inr ''/out/sink.tar''" by code_simp
  then have s': "SigMFArchive_init dump_sample (Single rec_b) None (Some sink_sample)
                   (snd run_sink1) = (Inr ''/out/sink.tar'', snd run_sink2)"
    unfolding run_sink2_def by (metis prod.collapse)
  have n: "map_of (fs (snd run_sink2)) ''/out/sink.tar'' = Some (File 384 (Tar ?ab False))"
    by code_simp
  have t: "sink_members (snd run_sink1) ''/out/sink.tar'' = ?a" by code_simp
  have t': "list_all perm_ok (sink_members (snd run_sink1) ''/out/sink.tar'')"
    using p1 by (simp add: t)
  from C5_permission_bits[THEN conjunct2, THEN conjunct2, rule_format, OF conjI[OF s' conjI[OF n t']]]
  have p3: "list_all perm_ok ?ab" by (simp add: members_in_def)
  show ?thesis using l p1 r m p2 s n p3 by simp
qed

section \<open>The container handle of the extractor\<close>

lemma extractall_opened: "opened (snd (extractall dir ms w)) = opened w"
  by (induction dir ms w rule: extractall.induct)
     (auto simp: Let_def fs_put_def split: option.splits node.splits)

lemma tarfile_open_opened:
  "tarfile_open p w = (Inr a, w2) \<Longrightarrow> opened w2 = tf_name a # opened w"
  by (auto simp: tarfile_open_def split: option.splits node.splits content.splits if_splits)

lemma tarfile_open_opened_fail:
  "tarfile_open p w = (Inl e, w2) \<Longrightarrow> w2 = w"
  by (auto simp: tarfile_open_def split: option.splits node.splits content.splits if_splits)

lemma dest_opened:
  "opened (snd (if not_set dir then mkdtemp w else (the dir, w))) = opened w"
  by (simp add: mkdtemp_def Let_def)

text \<open>Where the handle ends: closed, unless \<^verbatim>\<open>getmembers\<close> raised.\<close>

lemma extract_archive_handle:
  "opened (snd (extract_archive json_load p dir w)) =
     (case tarfile_open p (snd (if not_set dir then mkdtemp w else (the dir, w))) of
        (Inl e, w2) \<Rightarrow> opened w
      | (Inr a, w2) \<Rightarrow> (if tf_truncated a then tf_name a # opened w else opened w))"
proof -
  obtain d w1 where d: "(if not_set dir then mkdtemp w else (the dir, w)) = (d, w1)"
    by (cases "if not_set dir then mkdtemp w else (the dir, w)") 
  have o1: "opened w1 = opened w" using dest_opened[of dir w] d by simp
  show ?thesis
  proof (cases "tarfile_open p w1")
    case (Pair r w2)
    show ?thesis
    proof (cases r)
      case (Inl e)
      with Pair d o1 show ?thesis
        by (auto simp: extract_archive_def dest: tarfile_open_opened_fail)
    next
      case (Inr a)
      with Pair have o2: "opened w2 = tf_name a # opened w"
        using tarfile_open_opened o1 by simp
      show ?thesis
      proof (cases "tf_truncated a")
        case True
        with Pair Inr d o2 show ?thesis
          by (simp add: extract_archive_def getmembers_def)
      next
        case False
        have "opened (snd (extractall d (tf_members a) w2)) = opened w2"
          by (rule extractall_opened)
        with False Pair Inr d o2 show ?thesis
          by (auto simp: extract_archive_def getmembers_def tarfile_close_def close_file_def
              split: prod.splits sum.splits)
      qed
    qed
  qed
qed

text \<open>
  C8. The claim: the container handle is closed before \<^verbatim>\<open>extract\<close> returns or raises,
  also when the error occurs during entry enumeration. \<^verbatim>\<open>getmembers()\<close> is called
  before the \<^verbatim>\<open>try\<close> whose \<^verbatim>\<open>finally\<close> closes the handle: on a truncated container
  it raises ReadError and the handle stays open. (The lemma above covers the other
  exits: there the handle is closed.)
\<close>

theorem C8_handle_stays_open_when_enumeration_fails:
  "extract_archive json_load_sample ''/out/cut.sigmf'' (Some ''/out'') world_cut
     = (Inl ReadError, world_cut\<lparr>opened := [''/out/cut.sigmf'']\<rparr>)"
  by code_simp

section \<open>Pairing the members\<close>

lemma scan_pairs_in_order:
  assumes "list_all (\<lambda>m. \<not> null_document json_load m) ms"
  shows "scan json_load dir ms d md acc =
           (case pair_in_order (map (entry_event json_load dir) ms) d md of
              Inl e \<Rightarrow> Inl e
            | Inr hs \<Rightarrow> Inr (acc @ hs))"
  using assms
proof (induction ms arbitrary: d md acc)
  case Nil
  then show ?case by simp
next
  case (Cons m ms)
  then have n: "\<not> null_document json_load m"
    and ih: "\<And>d md acc. scan json_load dir ms d md acc =
           (case pair_in_order (map (entry_event json_load dir) ms) d md of
              Inl e \<Rightarrow> Inl e
            | Inr hs \<Rightarrow> Inr (acc @ hs))"
    by simp_all
  show ?case
  proof (cases "endswith (ti_name m) SIGMF_DATASET_EXT")
    case True
    then have ev: "entry_event json_load dir m = Inr (DataSeen (join dir (ti_name m)))"
      by (simp add: entry_event_def)
    from True show ?thesis
      by (cases md) (simp_all add: ev ih split: sum.splits)
  next
    case False
    note nd = this
    show ?thesis
    proof (cases "endswith (ti_name m) SIGMF_METADATA_EXT")
      case False
      with nd have ev: "entry_event json_load dir m = Inr Skipped"
        by (simp add: entry_event_def)
      from nd False show ?thesis
        by (cases d; cases md) (simp_all add: ev ih split: sum.splits)
    next
      case True
      show ?thesis
      proof (cases "load_member json_load m")
        case (Inl e)
        with nd True have ev: "entry_event json_load dir m = Inl e"
          by (simp add: entry_event_def)
        from nd True Inl show ?thesis by (simp add: ev)
      next
        case (Inr v)
        with n nd True have v: "v \<noteq> JNull" by (auto simp: null_document_def)
        from nd True Inr have ev: "entry_event json_load dir m = Inr (MetaSeen v)"
          by (simp add: entry_event_def)
        from nd True Inr v show ?thesis
          by (cases d) (simp_all add: ev py_value_def ih split: sum.splits)
      qed
    qed
  qed
qed

text \<open>
  C2 (amended). \<^verbatim>\<open>extract\<close> scans the members in the container's order with a current
  data file and a current metadata value, and pairs them by encounter order alone,
  never by directory name: its loop computes exactly the pairing rule above, provided
  no metadata entry holds the document \<^verbatim>\<open>null\<close>.
\<close>

theorem C2_pairing_by_encounter_order:
  assumes "list_all (\<lambda>m. \<not> null_document json_load m) members"
  shows "scan json_load dir members None None []
           = pair_in_order (map (entry_event json_load dir) members) None None"
  using scan_pairs_in_order[OF assms, of dir None None "[]"]
  by (simp split: sum.splits)

theorem C2_pairing_by_encounter_order_witness:
  "list_all (\<lambda>m. \<not> null_document json_load_sample m)
     [TarInfo ''a'' True 493 (Raw []),
      TarInfo ''a/x.sigmf-data'' False 420 (Raw ''abc''),
      TarInfo ''b/y.sigmf-meta'' False 420 (Raw ''{}''),
      TarInfo ''c/z.sigmf-meta'' False 420 (Raw ''[]'')]
   \<and> scan json_load_sample ''/out''
       [TarInfo ''a'' True 493 (Raw []),
        TarInfo ''a/x.sigmf-data'' False 420 (Raw ''abc''),
        TarInfo ''b/y.sigmf-meta'' False 420 (Raw ''{}''),
        TarInfo ''c/z.sigmf-meta'' False 420 (Raw ''[]'')] None None []
     = Inr [\<lparr>ex_metadata = JObject [], ex_data_file = ''/out/a/x.sigmf-data''\<rparr>]
   \<and> pair_in_order (map (entry_event json_load_sample ''/out'')
       [TarInfo ''a'' True 493 (Raw []),
        TarInfo ''a/x.sigmf-data'' False 420 (Raw ''abc''),
        TarInfo ''b/y.sigmf-meta'' False 420 (Raw ''{}''),
        TarInfo ''c/z.sigmf-meta'' False 420 (Raw ''[]'')]) None None
     = Inr [\<lparr>ex_metadata = JObject [], ex_data_file = ''/out/a/x.sigmf-data''\<rparr>]"
proof -
  let ?ms = "[TarInfo ''a'' True 493 (Raw []),
      TarInfo ''a/x.sigmf-data'' False 420 (Raw ''abc''),
      TarInfo ''b/y.sigmf-meta'' False 420 (Raw ''{}''),
      TarInfo ''c/z.sigmf-meta'' False 420 (Raw ''[]'')]"
  have h: "list_all (\<lambda>m. \<not> null_document json_load_sample m) ?ms" by code_simp
  have s: "scan json_load_sample ''/out'' ?ms None None []
     = Inr [\<lparr>ex_metadata = JObject [], ex_data_file = ''/out/a/x.sigmf-data''\<rparr>]"
    by code_simp
  from C2_pairing_by_encounter_order[OF h, of "''/out''"] h s show ?thesis by simp
qed

text \<open>
  C2 as stated fails on a metadata entry that holds \<^verbatim>\<open>null\<close>: \<^verbatim>\<open>json.load\<close> returns
  \<^verbatim>\<open>None\<close>, the value that marks "no metadata seen", so a dataset entry and a metadata
  entry have both been seen and yet no handle is built.
\<close>

theorem C2_null_document_counterexample:
  "scan json_load_sample ''/out''
     [TarInfo ''a/a.sigmf-data'' False 420 (Raw ''abc''),
      TarInfo ''a/a.sigmf-meta'' False 420 (Raw ''null'')] None None [] = Inr []
   \<and> pair_in_order (map (entry_event json_load_sample ''/out'')
     [TarInfo ''a/a.sigmf-data'' False 420 (Raw ''abc''),
      TarInfo ''a/a.sigmf-meta'' False 420 (Raw ''null'')]) None None
     = Inr [\<lparr>ex_metadata = JNull, ex_data_file = ''/out/a/a.sigmf-data''\<rparr>]"
  by code_simp

section \<open>Malformed metadata\<close>

lemma meta_not_data:
  assumes "endswith n SIGMF_METADATA_EXT"
  shows "\<not> endswith n SIGMF_DATASET_EXT"
proof
  assume "endswith n SIGMF_DATASET_EXT"
  with assms have "suffix ''.sigmf-meta'' n" "suffix ''.sigmf-data'' n"
    by (simp_all add: endswith_def SIGMF_METADATA_EXT_def SIGMF_DATASET_EXT_def)
  then have "suffix ''.sigmf-meta'' ''.sigmf-data'' \<or> suffix ''.sigmf-data'' ''.sigmf-meta''"
    by (rule suffix_same_cases)
  then show False by (auto simp: suffix_def)
qed

lemma malformed_load:
  "malformed json_load m \<Longrightarrow> load_member json_load m = Inl FormatError"
  by (auto simp: malformed_def load_member_def extractfile_def split: content.splits)

lemma malformed_fails:
  assumes "malformed json_load m"
  shows "member_fails json_load m"
proof -
  from assms have e: "endswith (ti_name m) SIGMF_METADATA_EXT" by (simp add: malformed_def)
  with meta_not_data have "\<not> endswith (ti_name m) SIGMF_DATASET_EXT" by blast
  with e assms show ?thesis by (simp add: member_fails_def malformed_load)
qed

lemma scan_member_fails:
  assumes "member_fails json_load m"
  shows "scan json_load dir (m # ms) d md acc = Inl (projl (load_member json_load m))"
  using assms by (auto simp: member_fails_def isl_def)

lemma scan_step_ok:
  assumes "\<not> member_fails json_load m"
  shows "\<exists>d' md' acc'. scan json_load dir (m # ms) d md acc = scan json_load dir ms d' md' acc'"
proof (cases "endswith (ti_name m) SIGMF_DATASET_EXT")
  case True
  then show ?thesis by (cases md) auto
next
  case nd: False
  show ?thesis
  proof (cases "endswith (ti_name m) SIGMF_METADATA_EXT")
    case False
    with nd show ?thesis by (cases d; cases md) auto
  next
    case True
    with nd assms obtain v where "load_member json_load m = Inr v"
      by (cases "load_member json_load m") (auto simp: member_fails_def)
    with nd True show ?thesis
      by (cases d; cases "py_value v") auto
  qed
qed

lemma scan_never_past_malformed:
  assumes "bad \<in> set ms" "malformed json_load bad"
  shows "\<exists>e. scan json_load dir ms d md acc = Inl e"
  using assms
proof (induction ms arbitrary: d md acc)
  case Nil
  then show ?case by simp
next
  case (Cons m ms)
  show ?case
  proof (cases "member_fails json_load m")
    case True
    then show ?thesis using scan_member_fails by blast
  next
    case False
    with Cons.prems malformed_fails have "bad \<in> set ms" by auto
    from Cons.IH[OF this Cons.prems(2)] scan_step_ok[OF False] show ?thesis by metis
  qed
qed

lemma scan_first_failure:
  assumes "list_all (\<lambda>m. \<not> member_fails json_load m) pre" "malformed json_load bad"
  shows "scan json_load dir (pre @ bad # post) d md acc = Inl FormatError"
  using assms
proof (induction pre arbitrary: d md acc)
  case Nil
  then show ?case
    using scan_member_fails[OF malformed_fails] by (simp add: malformed_load)
next
  case (Cons m pre)
  then have f: "\<not> member_fails json_load m"
    and ih: "\<And>d md acc. scan json_load dir (pre @ bad # post) d md acc = Inl FormatError"
    by simp_all
  from scan_step_ok[OF f, of dir "pre @ bad # post" d md acc] ih show ?case by auto
qed


lemma abspath_opened [simp]: "abspath (w\<lparr>opened := x\<rparr>) q = abspath w q"
  by (simp add: abspath_def)

lemma fs_get_opened [simp]: "fs_get (w\<lparr>opened := x\<rparr>) q = fs_get w q"
  by (simp add: fs_get_def)

lemma fs_put_opened: "fs_put q n (w\<lparr>opened := x\<rparr>) = (fs_put q n w)\<lparr>opened := x\<rparr>"
  by (simp add: fs_put_def)

lemma extractall_ignores_opened:
  "fst (extractall dir ms (w\<lparr>opened := x\<rparr>)) = fst (extractall dir ms w)"
proof (induction ms arbitrary: w)
  case Nil
  then show ?case by simp
next
  case (Cons member members)
  show ?case
    by (simp add: Let_def fs_put_opened Cons.IH split: option.splits node.splits)
qed

lemma mkdtemp_fs_get:
  "fs_get (snd (mkdtemp w)) p =
     (if abspath w p = tmp_path (ntemp w) then Some (Dir 448) else fs_get w p)"
proof -
  have a: "abspath (snd (mkdtemp w)) p = abspath w p"
    by (simp add: mkdtemp_def Let_def abspath_def)
  show ?thesis
    unfolding fs_get_def a by (simp add: mkdtemp_def Let_def)
qed

lemma tarfile_open_members:
  assumes "fs_get w p = Some (File m (Tar ms t))" "ms \<noteq> []"
  shows "tarfile_open p w =
           (Inr \<lparr>tf_name = abspath w p, tf_members = ms, tf_truncated = t\<rparr>,
            w\<lparr>opened := abspath w p # opened w\<rparr>)"
  using assms by (simp add: tarfile_open_def)

lemma extract_after_open:
  assumes "tarfile_open p w1 = (Inr a, w2)"
    and "\<And>w3. \<exists>e. scan json_load d (tf_members a) None None [] = Inl e"
  shows "\<exists>e. fst (case getmembers a of
                  Inl e \<Rightarrow> (Inl e, w2)
                | Inr members \<Rightarrow>
                    (case (case extractall d members w2 of
                             (Inl e, w3) \<Rightarrow> (Inl e, w3)
                           | (Inr u, w3) \<Rightarrow> (scan json_load d members None None [], w3)) of
                       (r, w3) \<Rightarrow> (r, tarfile_close a w3))) = Inl e"
  using assms(2)
  by (auto simp: getmembers_def split: prod.splits sum.splits)

lemma extract_never_returns:
  assumes "fs_get w p = Some (File m (Tar ms t))" "bad \<in> set ms" "malformed json_load bad"
  shows "\<exists>e. fst (extract_archive json_load p dir w) = Inl e"
proof -
  obtain d w1 where d: "(if not_set dir then mkdtemp w else (the dir, w)) = (d, w1)"
    by (cases "if not_set dir then mkdtemp w else (the dir, w)")
  then have g: "fs_get w1 p = Some (Dir 448) \<or> fs_get w1 p = fs_get w p"
    using mkdtemp_fs_get[of w p] by (auto split: if_splits)
  from assms(2) have ne: "ms \<noteq> []" by auto
  show ?thesis
  proof (cases "tarfile_open p w1")
    case (Pair r w2)
    show ?thesis
    proof (cases r)
      case (Inl e)
      with Pair d show ?thesis by (simp add: extract_archive_def)
    next
      case (Inr a)
      with Pair g assms(1) ne have "tf_members a = ms"
        by (auto simp: tarfile_open_def split: if_splits)
      with scan_never_past_malformed[OF assms(2,3)]
      have "\<And>w3. \<exists>e. scan json_load d (tf_members a) None None [] = Inl e" by simp
      from extract_after_open[OF _ this] Pair Inr d show ?thesis
        by (simp add: extract_archive_def)
    qed
  qed
qed

lemma extract_first_failure:
  assumes "d \<noteq> []"
    and "fs_get w p = Some (File m (Tar (pre @ bad # post) False))"
    and "fst (extractall d (pre @ bad # post) w) = Inr ()"
    and "list_all (\<lambda>m. \<not> member_fails json_load m) pre"
    and "malformed json_load bad"
  shows "fst (extract_archive json_load p (Some d) w) = Inl FormatError"
proof -
  let ?ms = "pre @ bad # post"
  let ?w2 = "w\<lparr>opened := abspath w p # opened w\<rparr>"
  have o: "tarfile_open p w =
             (Inr \<lparr>tf_name = abspath w p, tf_members = ?ms, tf_truncated = False\<rparr>, ?w2)"
    using assms(2) by (simp add: tarfile_open_members)
  have "fst (extractall d ?ms ?w2) = Inr ()"
    using assms(3) by (simp add: extractall_ignores_opened)
  then obtain w3 where x: "extractall d ?ms ?w2 = (Inr (), w3)"
    by (cases "extractall d ?ms ?w2") auto
  have s: "scan json_load d ?ms None None [] = Inl FormatError"
    using assms(4,5) by (rule scan_first_failure)
  from assms(1) o x s show ?thesis
    by (simp add: extract_archive_def not_set_def getmembers_def)
qed


text \<open>
  C6 (amended). When the container holds a metadata-suffixed regular file whose bytes
  are not UTF-8 JSON, \<^verbatim>\<open>extract\<close> fails: it never returns a list of handles, partial or
  not. The error is that of the first failure on the way: FormatError (the decoding
  error of \<^verbatim>\<open>json.load\<close>) when the container opens and enumerates, its members are
  materialised, and no member before the malformed one makes the loop raise.
\<close>

theorem C6_malformed_metadata:
  "(fs_get w p = Some (File m (Tar ms t)) \<and> bad \<in> set ms \<and> malformed json_load bad \<longrightarrow>
      (\<exists>e. fst (extract_archive json_load p dir w) = Inl e))
   \<and> (d \<noteq> [] \<and> fs_get w p = Some (File m (Tar (pre @ bad # post) False))
        \<and> fst (extractall d (pre @ bad # post) w) = Inr ()
        \<and> list_all (\<lambda>m. \<not> member_fails json_load m) pre \<and> malformed json_load bad \<longrightarrow>
      fst (extract_archive json_load p (Some d) w) = Inl FormatError)"
  using extract_never_returns extract_first_failure by blast

theorem C6_malformed_metadata_witness:
  "malformed json_load_sample (TarInfo ''a/a.sigmf-meta'' False 420 (Raw ''{''))
   \<and> fst (extractall ''/out''
            [TarInfo ''a'' True 493 (Raw []),
             TarInfo ''a/a.sigmf-data'' False 420 (Raw ''abc''),
             TarInfo ''a/a.sigmf-meta'' False 420 (Raw ''{'')] world_bad) = Inr ()
   \<and> (\<exists>e. fst (extract_archive json_load_sample ''/out/bad.sigmf'' None world_bad) = Inl e)
   \<and> fst (extract_archive json_load_sample ''/out/bad.sigmf'' (Some ''/out'') world_bad)
       = Inl FormatError"
proof -
  let ?pre = "[TarInfo ''a'' True 493 (Raw []),
               TarInfo ''a/a.sigmf-data'' False 420 (Raw ''abc'')]"
  let ?bad = "TarInfo ''a/a.sigmf-meta'' False 420 (Raw ''{'')"
  have b: "malformed json_load_sample ?bad" by code_simp
  have g: "fs_get world_bad ''/out/bad.sigmf'' = Some (File 420 (Tar (?pre @ ?bad # []) False))"
    by code_simp
  have i: "?bad \<in> set (?pre @ ?bad # [])" by simp
  have x: "fst (extractall ''/out'' (?pre @ ?bad # []) world_bad) = Inr ()" by code_simp
  have l: "list_all (\<lambda>m. \<not> member_fails json_load_sample m) ?pre" by code_simp
  have n: "''/out'' \<noteq> []" by simp
  from C6_malformed_metadata[THEN conjunct1, rule_format, OF conjI[OF g conjI[OF i b]]]
  have 1: "\<exists>e. fst (extract_archive json_load_sample ''/out/bad.sigmf'' None world_bad) = Inl e" .
  from C6_malformed_metadata[THEN conjunct2, rule_format,
         OF conjI[OF n conjI[OF g conjI[OF x conjI[OF l b]]]]]
  have 2: "fst (extract_archive json_load_sample ''/out/bad.sigmf'' (Some ''/out'') world_bad)
             = Inl FormatError" .
  from b x 1 2 show ?thesis by simp
qed

text \<open>
  C6 as stated (FormatError for every such container) fails when another error comes
  first: extracting to a destination that is a regular file raises OSError from
  \<^verbatim>\<open>extractall\<close>, before any metadata is parsed; and a directory entry whose name has
  the metadata suffix makes the loop raise AttributeError before it reaches the
  malformed file.
\<close>

theorem C6_other_error_first_counterexample:
  "malformed json_load_sample (TarInfo ''a/a.sigmf-meta'' False 420 (Raw ''{''))
   \<and> fs_get world_bad ''/out/bad.sigmf''
       = Some (File 420 (Tar [TarInfo ''a'' True 493 (Raw []),
                              TarInfo ''a/a.sigmf-data'' False 420 (Raw ''abc''),
                              TarInfo ''a/a.sigmf-meta'' False 420 (Raw ''{'')] False))
   \<and> fs_get world_bad ''/d1.bin'' = Some (File 384 (Raw ''abc''))
   \<and> fst (extract_archive json_load_sample ''/out/bad.sigmf'' (Some ''/d1.bin'') world_bad)
       = Inl OSError
   \<and> malformed json_load_sample
       (TarInfo ''r.sigmf-meta/r.sigmf-meta.sigmf-meta'' False 420 (Raw ''{''))
   \<and> fst (extract_archive json_load_sample ''/out/odd.sigmf'' (Some ''/out'') world_bad)
       = Inl AttributeError"
  by code_simp

section \<open>Staging directories\<close>

lemma head_below:
  "prefix (d @ ''/'') (rev (dropWhile (\<lambda>x. x \<noteq> CHR ''/'') (rev (d @ ''/'' @ r))))"
proof (induction r rule: rev_induct)
  case Nil
  then show ?case by simp
next
  case (snoc c r)
  then show ?case by (cases "c = CHR ''/''") auto
qed

lemma strip_below:
  assumes "d \<noteq> []" "last d \<noteq> CHR ''/''"
  shows "rev (dropWhile (\<lambda>x. x = CHR ''/'') (rev (d @ ''/'' @ t))) = d
         \<or> prefix (d @ ''/'') (rev (dropWhile (\<lambda>x. x = CHR ''/'') (rev (d @ ''/'' @ t))))"
proof (induction t rule: rev_induct)
  case Nil
  from assms have "dropWhile (\<lambda>x. x = CHR ''/'') (rev d) = rev d"
    by (cases d rule: rev_cases) auto
  then show ?case by simp
next
  case (snoc c t)
  then show ?case by (cases "c = CHR ''/''") auto
qed

lemma dirname_below:
  assumes "startswith q (d @ ''/'')" "d \<noteq> []" "last d \<noteq> CHR ''/''"
  shows "dirname q = d \<or> startswith (dirname q) (d @ ''/'')"
proof -
  from assms(1) obtain r where q: "q = d @ ''/'' @ r"
    by (auto simp: startswith_def prefix_def)
  define h where "h = rev (dropWhile (\<lambda>x. x \<noteq> CHR ''/'') (rev q))"
  have "prefix (d @ ''/'') h" unfolding h_def q by (rule head_below)
  then obtain t where t: "h = d @ ''/'' @ t" by (auto simp: prefix_def)
  have "last d \<in> set h" using assms(2) t by simp
  with assms(3) have na: "\<not> list_all (\<lambda>x. x = CHR ''/'') h"
    by (auto simp: list_all_iff)
  have ne: "h \<noteq> []" using t by simp
  have "dirname q = rev (dropWhile (\<lambda>x. x = CHR ''/'') (rev h))"
    using na ne by (simp add: dirname_def h_def[symmetric] Let_def)
  with strip_below[OF assms(2,3), of t] t show ?thesis
    by (auto simp: startswith_def)
qed


lemma tmp_path_ne: "tmp_path j \<noteq> []"
  by (simp add: tmp_path_def)

lemma tmp_path_last: "last (tmp_path j) \<noteq> CHR ''/''"
  by (cases j) (simp_all add: tmp_path_def)

lemma tmp_path_abs: "startswith (tmp_path j) ''/''"
  by (simp add: tmp_path_def startswith_def)

lemma tmp_path_inj: "tmp_path i = tmp_path j \<Longrightarrow> i = j"
proof -
  assume "tmp_path i = tmp_path j"
  then have "length (tmp_path i) = length (tmp_path j)" by simp
  then show "i = j" by (simp add: tmp_path_def)
qed

lemma tmp_path_not_below: "\<not> startswith (tmp_path n) (tmp_path j @ ''/'')"
proof
  assume "startswith (tmp_path n) (tmp_path j @ ''/'')"
  then obtain r where "replicate n (CHR ''x'') = replicate j (CHR ''x'') @ ''/'' @ r"
    by (auto simp: tmp_path_def startswith_def prefix_def)
  then have "CHR ''/'' \<in> set (replicate n (CHR ''x''))" by simp
  then show False by simp
qed

lemma abspath_abs: "startswith p ''/'' \<Longrightarrow> abspath w p = p"
  by (simp add: abspath_def)

lemma below_abs: "startswith q (tmp_path j @ ''/'') \<Longrightarrow> startswith q ''/''"
  by (auto simp: startswith_def tmp_path_def prefix_def)

lemma not_dir_below:
  assumes "staging_gone j w" "startswith q (tmp_path j @ ''/'')"
  shows "\<not> is_dir w (dirname q)"
proof -
  from dirname_below[OF assms(2) tmp_path_ne tmp_path_last]
  consider "dirname q = tmp_path j" | "startswith (dirname q) (tmp_path j @ ''/'')" by blast
  then show ?thesis
  proof cases
    case 1
    then have a: "abspath w (dirname q) = tmp_path j" by (simp add: abspath_abs tmp_path_abs)
    have "tmp_path j \<noteq> ''/''" by (simp add: tmp_path_def)
    with a assms(1) show ?thesis
      by (auto simp: is_dir_def fs_get_def staging_gone_def split: option.splits node.splits)
  next
    case 2
    then have a: "abspath w (dirname q) = dirname q" by (simp add: abspath_abs below_abs)
    from 2 have n: "dirname q \<noteq> ''/''" by (auto simp: startswith_def tmp_path_def)
    have "map_of (fs w) (dirname q) = None"
    proof (rule ccontr)
      assume "map_of (fs w) (dirname q) \<noteq> None"
      then obtain v where "(dirname q, v) \<in> set (fs w)" by (auto dest: map_of_SomeD)
      with assms(1) 2 show False by (auto simp: staging_gone_def list_all_iff)
    qed
    with a n show ?thesis by (simp add: is_dir_def fs_get_def)
  qed
qed

lemma gone_put_file:
  assumes "staging_gone j w" "\<not> startswith q (tmp_path j @ ''/'')"
  shows "staging_gone j (fs_put q (File m c) w)"
  using assms by (auto simp: staging_gone_def fs_put_def split: option.splits node.splits)

lemma key_not_below:
  assumes "staging_gone j w" "map_of (fs w) q = Some v"
  shows "\<not> startswith q (tmp_path j @ ''/'')"
  using assms by (auto simp: staging_gone_def list_all_iff dest: map_of_SomeD)

lemma gone_opened [simp]: "staging_gone j (w\<lparr>opened := x\<rparr>) = staging_gone j w"
  by (simp add: staging_gone_def)

lemma gone_open_write:
  assumes "staging_gone j w" "open_write p w = (r, w')"
  shows "staging_gone j w'"
proof (cases "p = []")
  case True
  with assms show ?thesis by (simp add: open_write_def)
next
  case False
  show ?thesis
  proof (cases "fs_get w p")
    case None
    show ?thesis
    proof (cases "is_dir w (dirname (abspath w p))")
      case True
      with not_dir_below[OF assms(1)] have "\<not> startswith (abspath w p) (tmp_path j @ ''/'')"
        by blast
      from gone_put_file[OF assms(1) this] assms(2) False None True show ?thesis
        by (auto simp: open_write_def Let_def)
    next
      case nd: False
      with assms False None show ?thesis by (simp add: open_write_def Let_def)
    qed
  next
    case (Some v)
    then have "\<not> startswith (abspath w p) (tmp_path j @ ''/'')"
      using key_not_below[OF assms(1)] by (simp add: fs_get_def)
    from gone_put_file[OF assms(1) this] assms Some False show ?thesis
      by (cases v) (auto simp: open_write_def Let_def)
  qed
qed

lemma gone_write_file:
  assumes "staging_gone j w"
  shows "staging_gone j (write_file q c w)"
proof (cases "map_of (fs w) q")
  case None
  with assms show ?thesis by (simp add: write_file_def)
next
  case (Some v)
  from gone_put_file[OF assms key_not_below[OF assms Some]] assms Some show ?thesis
    by (cases v) (simp_all add: write_file_def)
qed

lemma gone_close_file [simp]: "staging_gone j (close_file q w) = staging_gone j w"
  by (simp add: close_file_def)

lemma open_write_key:
  "open_write p w = (Inr q, w') \<Longrightarrow> \<exists>v. map_of (fs w') q = Some v"
  by (auto simp: open_write_def Let_def fs_put_def split: if_splits option.splits node.splits)

lemma gone_copy:
  assumes "staging_gone j w" "copy src dst w = (r, w')"
  shows "staging_gone j w'"
proof (cases "fs_get w src")
  case None
  with assms show ?thesis by (simp add: copy_def)
next
  case (Some v)
  show ?thesis
  proof (cases v)
    case (Dir m)
    with Some assms show ?thesis by (simp add: copy_def)
  next
    case (File m c)
    define dst' where "dst' = (if is_dir w dst then join dst (basename src) else dst)"
    show ?thesis
    proof (cases "abspath w src = abspath w dst'")
      case True
      with Some File assms show ?thesis by (simp add: copy_def dst'_def)
    next
      case ne: False
      obtain r1 w1 where o: "open_write dst' w = (r1, w1)" by (cases "open_write dst' w")
      from gone_open_write[OF assms(1) o] have g1: "staging_gone j w1" .
      show ?thesis
      proof (cases r1)
        case (Inl e)
        with Some File ne o assms(2) g1 show ?thesis
          by (simp add: copy_def dst'_def[symmetric])
      next
        case (Inr q)
        with o open_write_key obtain v' where "map_of (fs w1) q = Some v'" by blast
        from gone_put_file[OF g1 key_not_below[OF g1 this]]
        have "staging_gone j (fs_put q (File m c) w1)" .
        with Some File ne o Inr assms(2) show ?thesis
          by (auto simp: copy_def dst'_def[symmetric])
      qed
    qed
  qed
qed

lemma gone_mkdtemp:
  assumes "staging_gone j w" "j \<noteq> ntemp w"
  shows "staging_gone j (snd (mkdtemp w))"
  using assms tmp_path_inj[of "ntemp w" j] tmp_path_not_below[of "ntemp w" j]
  by (auto simp: staging_gone_def mkdtemp_def Let_def)

lemma map_of_filter_key:
  "map_of (filter (\<lambda>(k, v). P k) xs) k = (if P k then map_of xs k else None)"
  by (induction xs) auto

lemma gone_rmtree:
  assumes "staging_gone j w"
  shows "staging_gone j (rmtree d w)"
  using assms
  by (auto simp: staging_gone_def rmtree_def map_of_filter_key list_all_iff
      split: option.splits node.splits)

lemma gone_rmtree_self: "staging_gone j (rmtree (tmp_path j) w)"
  by (auto simp: staging_gone_def rmtree_def map_of_filter_key list_all_iff
      abspath_abs tmp_path_abs split: option.splits node.splits)


lemma archive_one_cases:
  assumes "archive_one dump out sf tf w = (r, w')"
  obtains
    (no_name) "name sf = None" "r = Inl TypeError" "w' = snd (mkdtemp w)"
  | (md_fail) nm e where "name sf = Some nm"
      "open_write (join (tmp_path (ntemp w)) (nm @ SIGMF_METADATA_EXT)) (snd (mkdtemp w))
         = (Inl e, w')" "r = Inl e"
  | (no_data) nm q w2 where "name sf = Some nm"
      "open_write (join (tmp_path (ntemp w)) (nm @ SIGMF_METADATA_EXT)) (snd (mkdtemp w))
         = (Inr q, w2)"
      "data_file sf = None" "r = Inl TypeError"
      "w' = close_file q (write_file q (Raw (dump (metadata sf))) w2)"
  | (copy_fail) nm q w2 df e where "name sf = Some nm"
      "open_write (join (tmp_path (ntemp w)) (nm @ SIGMF_METADATA_EXT)) (snd (mkdtemp w))
         = (Inr q, w2)"
      "data_file sf = Some df"
      "copy df (join (tmp_path (ntemp w)) (nm @ SIGMF_DATASET_EXT))
         (close_file q (write_file q (Raw (dump (metadata sf))) w2)) = (Inl e, w')"
      "r = Inl e"
  | (add_fail) nm q w2 df e where "name sf = Some nm"
      "open_write (join (tmp_path (ntemp w)) (nm @ SIGMF_METADATA_EXT)) (snd (mkdtemp w))
         = (Inr q, w2)"
      "data_file sf = Some df"
      "copy df (join (tmp_path (ntemp w)) (nm @ SIGMF_DATASET_EXT))
         (close_file q (write_file q (Raw (dump (metadata sf))) w2)) = (Inr (), w')"
      "tar_add w' (tmp_path (ntemp w)) nm = Inl e" "r = Inl e"
  | (ok) nm q w2 df w4 infos where "name sf = Some nm"
      "open_write (join (tmp_path (ntemp w)) (nm @ SIGMF_METADATA_EXT)) (snd (mkdtemp w))
         = (Inr q, w2)"
      "data_file sf = Some df"
      "copy df (join (tmp_path (ntemp w)) (nm @ SIGMF_DATASET_EXT))
         (close_file q (write_file q (Raw (dump (metadata sf))) w2)) = (Inr (), w4)"
      "tar_add w4 (tmp_path (ntemp w)) nm = Inr infos" "r = Inr (tf @ infos)"
      "w' = rmtree (tmp_path (ntemp w))
         (write_file (tw_name out) (container (tw_after_junk out) (tf @ infos)) w4)"
proof -
  define w1 where "w1 = snd (mkdtemp w)"
  have m: "mkdtemp w = (tmp_path (ntemp w), w1)"
    by (simp add: mkdtemp_def Let_def w1_def)
  note no_name = no_name[folded w1_def] and md_fail = md_fail[folded w1_def]
    and no_data = no_data[folded w1_def] and copy_fail = copy_fail[folded w1_def]
    and add_fail = add_fail[folded w1_def] and ok = ok[folded w1_def]
  show ?thesis
  proof (cases "name sf")
    case None
    with assms m no_name show ?thesis by (simp add: archive_one_def)
  next
    case (Some nm)
    note nm = this
    obtain r2 w2 where o: "open_write (join (tmp_path (ntemp w)) (nm @ SIGMF_METADATA_EXT))
         w1 = (r2, w2)"
      by (cases "open_write (join (tmp_path (ntemp w)) (nm @ SIGMF_METADATA_EXT))
         w1")
    show ?thesis
    proof (cases r2)
      case (Inl e)
      with assms m nm o have "r = Inl e" "w' = w2"
        by (auto simp: archive_one_def Let_def split: prod.splits)
      with md_fail[OF nm] o Inl show ?thesis by simp
    next
      case (Inr q)
      note q = this
      show ?thesis
      proof (cases "data_file sf")
        case None
        with assms m nm o q have "r = Inl TypeError"
          "w' = close_file q (write_file q (Raw (dump (metadata sf))) w2)"
          by (auto simp: archive_one_def Let_def split: prod.splits)
        with no_data[OF nm _ None] o q show ?thesis by simp
      next
        case (Some df)
        note df = this
        obtain r4 w4 where c: "copy df (join (tmp_path (ntemp w)) (nm @ SIGMF_DATASET_EXT))
           (close_file q (write_file q (Raw (dump (metadata sf))) w2)) = (r4, w4)"
          by (cases "copy df (join (tmp_path (ntemp w)) (nm @ SIGMF_DATASET_EXT))
           (close_file q (write_file q (Raw (dump (metadata sf))) w2))")
        show ?thesis
        proof (cases r4)
          case (Inl e)
          with assms m nm o q df c have "r = Inl e" "w' = w4"
            by (auto simp: archive_one_def Let_def split: prod.splits)
          with copy_fail[OF nm _ df] o q c Inl show ?thesis by simp
        next
          case (Inr u)
          note u = this
          show ?thesis
          proof (cases "tar_add w4 (tmp_path (ntemp w)) nm")
            case (Inl e)
            with assms m nm o q df c u have "r = Inl e" "w' = w4"
              by (auto simp: archive_one_def Let_def split: prod.splits)
            with add_fail[OF nm _ df] o q c u Inl show ?thesis by simp
          next
            case (Inr infos)
            with assms m nm o q df c u have "r = Inr (tf @ infos)"
              "w' = rmtree (tmp_path (ntemp w))
         (write_file (tw_name out) (container (tw_after_junk out) (tf @ infos)) w4)"
              by (auto simp: archive_one_def Let_def split: prod.splits)
            with ok[OF nm _ df] o q c u Inr show ?thesis by simp
          qed
        qed
      qed
    qed
  qed
qed


lemma open_write_ntemp: "open_write p w = (r, w') \<Longrightarrow> ntemp w' = ntemp w"
  by (auto simp: open_write_def Let_def fs_put_def split: if_splits option.splits node.splits)

lemma write_file_ntemp [simp]: "ntemp (write_file q c w) = ntemp w"
  by (simp add: write_file_def fs_put_def split: option.splits node.splits)

lemma close_file_ntemp [simp]: "ntemp (close_file q w) = ntemp w"
  by (simp add: close_file_def)

lemma rmtree_ntemp [simp]: "ntemp (rmtree d w) = ntemp w"
  by (simp add: rmtree_def)

lemma mkdtemp_ntemp [simp]: "ntemp (snd (mkdtemp w)) = Suc (ntemp w)"
  by (simp add: mkdtemp_def Let_def)

lemma copy_ntemp: "copy src dst w = (r, w') \<Longrightarrow> ntemp w' = ntemp w"
  by (auto simp: copy_def Let_def fs_put_def split: if_splits option.splits node.splits
      prod.splits sum.splits dest: open_write_ntemp)

lemma archive_one_ntemp:
  assumes "archive_one dump out sf tf w = (r, w')"
  shows "ntemp w' = Suc (ntemp w)"
  using assms
  by (cases rule: archive_one_cases) (auto dest!: open_write_ntemp copy_ntemp)

lemma open_write_dir:
  assumes "open_write p w = (r, w')" "map_of (fs w) k = Some (Dir m)"
  shows "map_of (fs w') k = Some (Dir m)"
  using assms
  by (auto simp: open_write_def Let_def fs_put_def fs_get_def
      split: if_splits option.splits node.splits)

lemma write_file_dir:
  assumes "map_of (fs w) k = Some (Dir m)"
  shows "map_of (fs (write_file q c w)) k = Some (Dir m)"
  using assms by (auto simp: write_file_def fs_put_def split: option.splits node.splits)

lemma close_file_fs [simp]: "fs (close_file q w) = fs w"
  by (simp add: close_file_def)

lemma open_write_result:
  "open_write p w = (Inr q, w') \<Longrightarrow> \<exists>m c. map_of (fs w') q = Some (File m c)"
  by (auto simp: open_write_def Let_def fs_put_def split: if_splits option.splits node.splits)

lemma copy_dir:
  assumes "copy src dst w = (r, w')" "map_of (fs w) k = Some (Dir m)"
  shows "map_of (fs w') k = Some (Dir m)"
proof (cases "fs_get w src")
  case None
  with assms show ?thesis by (simp add: copy_def)
next
  case (Some v)
  show ?thesis
  proof (cases v)
    case (Dir m')
    with Some assms show ?thesis by (simp add: copy_def)
  next
    case (File m' c)
    define dst' where "dst' = (if is_dir w dst then join dst (basename src) else dst)"
    obtain r1 w1 where o: "open_write dst' w = (r1, w1)" by (cases "open_write dst' w")
    from open_write_dir[OF o assms(2)] have d1: "map_of (fs w1) k = Some (Dir m)" .
    show ?thesis
    proof (cases r1)
      case (Inl e)
      with Some File o assms d1 show ?thesis
        by (auto simp: copy_def dst'_def[symmetric] split: if_splits)
    next
      case (Inr q)
      with o open_write_result obtain m2 c2 where "map_of (fs w1) q = Some (File m2 c2)"
        by blast
      with d1 have "q \<noteq> k" by auto
      with d1 have "map_of (fs (fs_put q (File m' c) w1)) k = Some (Dir m)"
        by (simp add: fs_put_def)
      with Some File o Inr assms show ?thesis
        by (auto simp: copy_def dst'_def[symmetric] split: if_splits)
    qed
  qed
qed

lemma mkdtemp_dir: "map_of (fs (snd (mkdtemp w))) (tmp_path (ntemp w)) = Some (Dir 448)"
  by (simp add: mkdtemp_def Let_def)

lemma archive_one_failure_leaves_dir:
  assumes "archive_one dump out sf tf w = (Inl e, w')"
  shows "map_of (fs w') (tmp_path (ntemp w)) = Some (Dir 448)"
  using assms
proof (cases rule: archive_one_cases)
  case no_name
  then show ?thesis by (simp add: mkdtemp_dir)
next
  case (md_fail nm e)
  from open_write_dir[OF md_fail(2) mkdtemp_dir] show ?thesis .
next
  case (no_data nm q w2)
  from open_write_dir[OF no_data(2) mkdtemp_dir] no_data(5) show ?thesis
    by (simp add: write_file_dir)
next
  case (copy_fail nm q w2 df e)
  from open_write_dir[OF copy_fail(2) mkdtemp_dir]
  have "map_of (fs (close_file q (write_file q (Raw (dump (metadata sf))) w2)))
          (tmp_path (ntemp w)) = Some (Dir 448)"
    by (simp add: write_file_dir)
  from copy_dir[OF copy_fail(4) this] show ?thesis .
next
  case (add_fail nm q w2 df e)
  from open_write_dir[OF add_fail(2) mkdtemp_dir]
  have "map_of (fs (close_file q (write_file q (Raw (dump (metadata sf))) w2)))
          (tmp_path (ntemp w)) = Some (Dir 448)"
    by (simp add: write_file_dir)
  from copy_dir[OF add_fail(4) this] show ?thesis .
next
  case (ok nm q w2 df w4 infos)
  then show ?thesis by simp
qed

lemma archive_one_gone:
  assumes "archive_one dump out sf tf w = (r, w')" "staging_gone j w" "j \<noteq> ntemp w"
  shows "staging_gone j w'"
proof -
  from gone_mkdtemp[OF assms(2,3)] have g1: "staging_gone j (snd (mkdtemp w))" .
  from assms(1) show ?thesis
  proof (cases rule: archive_one_cases)
    case no_name
    with g1 show ?thesis by simp
  next
    case (md_fail nm e)
    from gone_open_write[OF g1 md_fail(2)] show ?thesis .
  next
    case (no_data nm q w2)
    from gone_open_write[OF g1 no_data(2)] no_data(5) show ?thesis
      by (simp add: gone_write_file)
  next
    case (copy_fail nm q w2 df e)
    from gone_open_write[OF g1 copy_fail(2)]
    have "staging_gone j (close_file q (write_file q (Raw (dump (metadata sf))) w2))"
      by (simp add: gone_write_file)
    from gone_copy[OF this copy_fail(4)] show ?thesis .
  next
    case (add_fail nm q w2 df e)
    from gone_open_write[OF g1 add_fail(2)]
    have "staging_gone j (close_file q (write_file q (Raw (dump (metadata sf))) w2))"
      by (simp add: gone_write_file)
    from gone_copy[OF this add_fail(4)] show ?thesis .
  next
    case (ok nm q w2 df w4 infos)
    from gone_open_write[OF g1 ok(2)]
    have "staging_gone j (close_file q (write_file q (Raw (dump (metadata sf))) w2))"
      by (simp add: gone_write_file)
    from gone_copy[OF this ok(4)] have "staging_gone j w4" .
    with ok(7) show ?thesis by (simp add: gone_rmtree gone_write_file)
  qed
qed

lemma archive_one_success_gone:
  assumes "archive_one dump out sf tf w = (Inr tf', w')"
  shows "staging_gone (ntemp w) w'"
  using assms by (cases rule: archive_one_cases) (simp_all add: gone_rmtree_self)

lemma archive_loop_gone:
  assumes "archive_loop dump out sfs tf w = (Inr tf', w')"
    and "\<forall>j. n0 \<le> j \<and> j < ntemp w \<longrightarrow> staging_gone j w"
  shows "ntemp w' = ntemp w + length sfs
         \<and> (\<forall>j. n0 \<le> j \<and> j < ntemp w' \<longrightarrow> staging_gone j w')"
  using assms
proof (induction sfs arbitrary: tf w)
  case Nil
  then show ?case by simp
next
  case (Cons sf sfs)
  from Cons.prems(1) obtain tf1 w1 where
    one: "archive_one dump out sf tf w = (Inr tf1, w1)"
    and rest: "archive_loop dump out sfs tf1 w1 = (Inr tf', w')"
    by (auto split: prod.splits sum.splits)
  have n1: "ntemp w1 = Suc (ntemp w)" using one by (rule archive_one_ntemp)
  have "\<forall>j. n0 \<le> j \<and> j < ntemp w1 \<longrightarrow> staging_gone j w1"
  proof (intro allI impI)
    fix j assume j: "n0 \<le> j \<and> j < ntemp w1"
    show "staging_gone j w1"
    proof (cases "j = ntemp w")
      case True
      with archive_one_success_gone[OF one] show ?thesis by simp
    next
      case False
      with j n1 Cons.prems(2) have "staging_gone j w" by simp
      from archive_one_gone[OF one this False] show ?thesis .
    qed
  qed
  from Cons.IH[OF rest this] n1 show ?case by simp
qed

lemma archive_loop_failure:
  assumes "archive_loop dump out sfs tf w = (Inl e, w')"
  shows "ntemp w < ntemp w' \<and> map_of (fs w') (tmp_path (ntemp w' - 1)) = Some (Dir 448)"
  using assms
proof (induction sfs arbitrary: tf w)
  case Nil
  then show ?case by simp
next
  case (Cons sf sfs)
  obtain r1 w1 where one: "archive_one dump out sf tf w = (r1, w1)"
    by (cases "archive_one dump out sf tf w")
  have n1: "ntemp w1 = Suc (ntemp w)" using one by (rule archive_one_ntemp)
  show ?case
  proof (cases r1)
    case (Inl e1)
    with one Cons.prems have "w' = w1" "archive_one dump out sf tf w = (Inl e1, w1)" by simp_all
    with archive_one_failure_leaves_dir n1 show ?thesis by simp
  next
    case (Inr tf1)
    with one Cons.prems have "archive_loop dump out sfs tf1 w1 = (Inl e, w')" by simp
    from Cons.IH[OF this] n1 show ?thesis by simp
  qed
qed


lemma get_output_fileobj_ntemp:
  "get_output_fileobj path fileobj w = (r, w') \<Longrightarrow> ntemp w' = ntemp w"
  by (auto simp: get_output_fileobj_def get_open_fileobj_def
      split: option.splits if_splits prod.splits sum.splits dest: open_write_ntemp)

lemma init_success_gone:
  assumes "SigMFArchive_init dump (Iterable sfs) path fileobj w = (Inr p, w')"
  shows "ntemp w' = ntemp w + length sfs
         \<and> (\<forall>j. ntemp w \<le> j \<and> j < ntemp w' \<longrightarrow> staging_gone j w')"
proof -
  from init_success[OF assms] obtain path' w1 tf w2 where
    g: "get_output_fileobj path' fileobj w = (Inr p, w1)"
    and l: "archive_loop dump \<lparr>tw_name = p, tw_after_junk = fst (TarFile_init fileobj w1 p)\<rparr>
              sfs (snd (TarFile_init fileobj w1 p)) w1 = (Inr tf, w2)"
    and w': "w' = (if fileobj = None
                  then close_file p
                         (write_file p (container (fst (TarFile_init fileobj w1 p)) tf) w2)
                  else write_file p (container (fst (TarFile_init fileobj w1 p)) tf) w2)"
    by auto
  have n1: "ntemp w1 = ntemp w" using g by (rule get_output_fileobj_ntemp)
  then have "\<forall>j. ntemp w \<le> j \<and> j < ntemp w1 \<longrightarrow> staging_gone j w1" by auto
  from archive_loop_gone[OF l this] n1 w' show ?thesis
    by (simp add: gone_write_file)
qed

text \<open>
  C7 (amended). A failed pre-flight check leaves the world as it was: no staging
  directory was created, nothing is left behind. After a successful run one staging
  directory per recording has been handed out and every one of them is gone. An
  exception raised inside the loop is not followed by any cleanup: the staging
  directory of the recording in progress is still there.
\<close>

theorem C7_staging_cleanup:
  "(check_input path sfs = Inl e \<longrightarrow>
      SigMFArchive_init dump (Iterable sfs) path fileobj w = (Inl e, w))
   \<and> (SigMFArchive_init dump (Iterable sfs) path fileobj w = (Inr p, w') \<longrightarrow>
        ntemp w' = ntemp w + length sfs
        \<and> (\<forall>j. ntemp w \<le> j \<and> j < ntemp w' \<longrightarrow> staging_gone j w'))
   \<and> (archive_loop dump out sfs tf v = (Inl e, v') \<longrightarrow>
        ntemp v < ntemp v' \<and> map_of (fs v') (tmp_path (ntemp v' - 1)) = Some (Dir 448))"
  using init_check_failure[of path "Iterable sfs" e dump fileobj w]
    init_success_gone[of dump sfs path fileobj w p w']
    archive_loop_failure[of dump out sfs tf v e v']
  by simp

theorem C7_staging_cleanup_witness:
  "SigMFArchive_init dump_sample (Iterable [rec_a, rec_b\<lparr>validate := False\<rparr>])
      (Some ''/out/x'') None world_sample = (Inl ValidationError, world_sample)
   \<and> fst run_sample = Inr ''/out/x.sigmf''
   \<and> ntemp (snd run_sample) = 2
   \<and> staging_gone 0 (snd run_sample) \<and> staging_gone 1 (snd run_sample)
   \<and> fst (archive_loop dump_sample \<lparr>tw_name = ''/out/sink.tar'', tw_after_junk = False\<rparr>
        [rec_a, rec_missing] [] world_sample)
       = Inl OSError
   \<and> map_of (fs (snd (archive_loop dump_sample \<lparr>tw_name = ''/out/sink.tar'', tw_after_junk = False\<rparr>
        [rec_a, rec_missing] []
        world_sample))) (tmp_path 1) = Some (Dir 448)"
proof -
  have c: "check_input (Some ''/out/x'') [rec_a, rec_b\<lparr>validate := False\<rparr>]
             = Inl ValidationError"
    by code_simp
  from C7_staging_cleanup[THEN conjunct1, rule_format, OF c]
  have 1: "SigMFArchive_init dump_sample (Iterable [rec_a, rec_b\<lparr>validate := False\<rparr>])
      (Some ''/out/x'') None world_sample = (Inl ValidationError, world_sample)" .
  have r: "fst run_sample = Inr ''/out/x.sigmf''" by code_simp
  then have r': "SigMFArchive_init dump_sample (Iterable [rec_a, rec_b]) (Some ''/out/x'') None
                   world_sample = (Inr ''/out/x.sigmf'', snd run_sample)"
    unfolding run_sample_def by (metis prod.collapse)
  have n0: "ntemp world_sample = 0" by (simp add: world_sample_def)
  from C7_staging_cleanup[THEN conjunct2, THEN conjunct1, rule_format, OF r']
  have 2: "ntemp (snd run_sample) = 2"
    and g: "\<forall>j. ntemp world_sample \<le> j \<and> j < ntemp (snd run_sample)
               \<longrightarrow> staging_gone j (snd run_sample)"
    by (simp_all add: n0)
  from g 2 n0 have 3: "staging_gone 0 (snd run_sample)" "staging_gone 1 (snd run_sample)"
    by simp_all
  let ?L = "archive_loop dump_sample \<lparr>tw_name = ''/out/sink.tar'', tw_after_junk = False\<rparr>
        [rec_a, rec_missing] [] world_sample"
  have l: "fst ?L = Inl OSError" by code_simp
  then have l': "?L = (Inl OSError, snd ?L)" by (metis prod.collapse)
  have n2: "ntemp (snd ?L) = 2" by code_simp
  have d: "ntemp (snd ?L) - 1 = 1" unfolding n2 by simp
  from C7_staging_cleanup[THEN conjunct2, THEN conjunct2, rule_format, OF l']
  have "map_of (fs (snd ?L)) (tmp_path (ntemp (snd ?L) - 1)) = Some (Dir 448)"
    by (rule conjunct2)
  then have 4: "map_of (fs (snd ?L)) (tmp_path 1) = Some (Dir 448)"
    unfolding d .
  from 1 r 2 3 l 4 show ?thesis by blast
qed

text \<open>
  C7 as stated fails when the loop raises: packing a recording whose data file does
  not exist into a fresh path makes \<^verbatim>\<open>shutil.copy\<close> raise; the staging directory and
  the metadata file staged in it remain, and so does the destination file, created
  empty and still open.
\<close>

theorem C7_staging_left_behind_counterexample:
  "fst run_missing = Inl OSError
   \<and> map_of (fs world_sample) ''/tmp/tmp'' = None
   \<and> map_of (fs (snd run_missing)) ''/tmp/tmp'' = Some (Dir 448)
   \<and> map_of (fs (snd run_missing)) ''/tmp/tmp/a.sigmf-meta'' = Some (File 420 (Raw ''{}''))
   \<and> map_of (fs world_sample) ''/out/x.sigmf'' = None
   \<and> map_of (fs (snd run_missing)) ''/out/x.sigmf'' = Some (File 420 (Raw []))
   \<and> opened (snd run_missing) = [''/out/x.sigmf'']"
  by code_simp

section \<open>The round trip\<close>











































end
